theory Spec2Isabelle
  imports Main "HOL-Library.Word"
begin

unbundle bit_operations_syntax

section \<open>Shared definitions (include/tagfd-shared.h)\<close>

text \<open>Bytes of C character arrays are modelled as \<open>char\<close>; a C string is the list of the
  bytes in front of its first NUL.\<close>

definition NUL :: char where
  "NUL = CHR 0x00"

type_synonym timestamp_t = "64 word"

definition DT_INVALID :: "8 word" where "DT_INVALID = 0"
definition DT_INT8 :: "8 word" where "DT_INT8 = 2"
definition DT_UINT8 :: "8 word" where "DT_UINT8 = 3"
definition DT_INT16 :: "8 word" where "DT_INT16 = 4"
definition DT_UINT16 :: "8 word" where "DT_UINT16 = 5"
definition DT_INT32 :: "8 word" where "DT_INT32 = 6"
definition DT_UINT32 :: "8 word" where "DT_UINT32 = 7"
definition DT_INT64 :: "8 word" where "DT_INT64 = 8"
definition DT_UINT64 :: "8 word" where "DT_UINT64 = 9"
definition DT_REAL32 :: "8 word" where "DT_REAL32 = 10"
definition DT_REAL64 :: "8 word" where "DT_REAL64 = 11"
definition DT_TIMESTAMP :: "8 word" where "DT_TIMESTAMP = 12"
definition DT_STRING :: "8 word" where "DT_STRING = 13"

definition QUALITY_MASK :: "16 word" where "QUALITY_MASK = 0xC000"
definition QUALITY_VENDOR_MASK :: "16 word" where "QUALITY_VENDOR_MASK = 0x3FFF"
definition QUALITY_UNCERTAIN :: "16 word" where "QUALITY_UNCERTAIN = 0x0000"
definition QUALITY_DISCONNECTED :: "16 word" where "QUALITY_DISCONNECTED = 0x8000"
definition QUALITY_BAD :: "16 word" where "QUALITY_BAD = 0x4000"
definition QUALITY_GOOD :: "16 word" where "QUALITY_GOOD = 0xC000"

definition TAG_NAME_LENGTH :: nat where "TAG_NAME_LENGTH = 256"
definition TAG_STRING_VALUE_LENGTH :: nat where "TAG_STRING_VALUE_LENGTH = 16"

text \<open>\<open>tag_t\<close>: the union \<open>tagvalue_t\<close> is its 16 bytes; the three scalar fields follow.\<close>

record tag_t =
  tvalue :: "8 word list"
  timestamp :: timestamp_t
  quality :: "16 word"
  dtype :: "8 word"

text \<open>\<open>sizeof(tag_t)\<close>: 16 + 8 + 2 + 1 bytes, padded to the 8-byte alignment of the
  record.\<close>

definition sizeof_tag_t :: nat where
  "sizeof_tag_t = 32"

text \<open>\<open>struct tag_config\<close>: \<open>cfg_name\<close> is the whole array \<open>name[TAG_NAME_LENGTH]\<close>.\<close>

record tag_config =
  action :: "8 word"
  cfg_dtype :: "8 word"
  cfg_name :: string

definition sizeof_tag_config :: nat where
  "sizeof_tag_config = 258"

section \<open>Kernel module: types and globals\<close>

text \<open>The error numbers the module returns (negated in C), and their Linux values.\<close>

datatype errno = EPERM | EAGAIN | ENOMEM | EFAULT | EBUSY | EEXIST | EINVAL
  | ENOTRECOVERABLE | ERESTARTSYS | EOTHER int

fun errno_value :: "errno \<Rightarrow> int" where
  "errno_value EPERM = 1"
| "errno_value EAGAIN = 11"
| "errno_value ENOMEM = 12"
| "errno_value EFAULT = 14"
| "errno_value EBUSY = 16"
| "errno_value EEXIST = 17"
| "errno_value EINVAL = 22"
| "errno_value ENOTRECOVERABLE = 131"
| "errno_value ERESTARTSYS = 512"
| "errno_value (EOTHER e) = - e"

text \<open>\<open>struct tag_ctx\<close>: the value record and the name, the C string held in
  \<open>name[TAG_NAME_LENGTH]\<close>. The mutex, the wait queue and the character device are the
  kernel's; what they do to a call is an argument of the call (lock acquired or interrupted,
  events while waiting, result of registering the device).\<close>

record tag_ctx =
  tag :: tag_t
  name :: string

text \<open>\<open>struct tag_watcher\<close>: \<open>e_ctx\<close> is the index in \<open>gl_tags\<close> of the context the
  session is attached to.\<close>

record tag_watcher =
  e_ctx :: nat
  ts_lastRead :: timestamp_t

text \<open>The globals: \<open>gl_tags\<close> holds the first \<open>gl_nEntities\<close> entries of the array, so
  \<open>gl_nEntities\<close> is its length.\<close>

record module_state =
  max_tags :: int
  gl_tags :: "tag_ctx list"
  gl_masterAvailable :: "32 word"

definition gl_nEntities :: "module_state \<Rightarrow> int" where
  "gl_nEntities s = int (length (gl_tags s))"

definition PREFIX :: string where
  "PREFIX = ''tagfd!''"

definition validTagNameChars :: string where
  "validTagNameChars =
     ''abcdefghijklmnopqrstuvwxyzABCDEFGHIJKLMNOPQRSTUVWXYZ0123456789.-_''"

subsection \<open>C library functions on strings\<close>

text \<open>\<open>strlen\<close> of a character array.\<close>

definition strlen :: "string \<Rightarrow> nat" where
  "strlen buf = length (takeWhile (\<lambda>c. c \<noteq> NUL) buf)"

text \<open>The C string in a character array.\<close>

definition cstring :: "string \<Rightarrow> string" where
  "cstring buf = takeWhile (\<lambda>c. c \<noteq> NUL) buf"

text \<open>\<open>strchr s c \<noteq> NULL\<close>, for the C string \<open>s\<close>: the terminator is part of the
  string it searches.\<close>

definition strchr :: "string \<Rightarrow> char \<Rightarrow> bool" where
  "strchr s c = (c \<in> set s \<or> c = NUL)"

text \<open>\<open>strncmp a b n = 0\<close> for C strings \<open>a\<close> and \<open>b\<close>: at most \<open>n\<close> bytes are
  compared, and the comparison stops at a terminator.\<close>

fun strncmp_eq :: "string \<Rightarrow> string \<Rightarrow> nat \<Rightarrow> bool" where
  "strncmp_eq a b 0 = True"
| "strncmp_eq [] [] (Suc n) = True"
| "strncmp_eq [] (y # ys) (Suc n) = False"
| "strncmp_eq (x # xs) [] (Suc n) = False"
| "strncmp_eq (x # xs) (y # ys) (Suc n) = (x = y \<and> strncmp_eq xs ys n)"

subsection \<open>tagfd_isNameTaken\<close>

fun isNameTaken_loop :: "tag_ctx list \<Rightarrow> string \<Rightarrow> nat \<Rightarrow> bool" where
  "isNameTaken_loop [] nm namelen = False"
| "isNameTaken_loop (c # cs) nm namelen =
     (if strncmp_eq (name c) nm namelen then True else isNameTaken_loop cs nm namelen)"

definition tagfd_isNameTaken :: "module_state \<Rightarrow> string \<Rightarrow> nat \<Rightarrow> bool" where
  "tagfd_isNameTaken s nm namelen =
     (let namelen = (if namelen > TAG_STRING_VALUE_LENGTH then TAG_STRING_VALUE_LENGTH
                     else namelen)
      in isNameTaken_loop (gl_tags s) nm namelen)"

subsection \<open>Tag file operations\<close>


text \<open>What happens to a reader suspended in \<open>wait_event_interruptible\<close>: either a signal
  arrives, or the wait ends because the stored timestamp differs from \<open>ts_lastRead\<close>; then
  \<open>mutex_lock_interruptible\<close> runs and either acquires the mutex (\<open>True\<close>) or is
  interrupted, and the context holds the given record at that moment.\<close>

datatype wait_event = Interrupted | Woken bool tag_t

text \<open>The \<open>while\<close> loop of \<open>tagfd_read\<close>, entered with the mutex held. The result is
  \<open>None\<close> when the events end with the reader still suspended, an error, or the record
  stored in the context when the loop is left with the mutex held.\<close>

fun read_wait :: "timestamp_t \<Rightarrow> tag_t \<Rightarrow> bool \<Rightarrow> wait_event list \<Rightarrow> (errno + tag_t) option" where
  "read_wait lastRead stored nonblock evs =
     (if lastRead = timestamp stored then
        (if nonblock then Some (Inl EAGAIN)
         else (case evs of
                 [] \<Rightarrow> None
               | Interrupted # _ \<Rightarrow> Some (Inl ERESTARTSYS)
               | Woken locked stored' # evs' \<Rightarrow>
                   if \<not> locked then Some (Inl ERESTARTSYS)
                   else read_wait lastRead stored' nonblock evs'))
      else Some (Inr stored))"

text \<open>\<open>tagfd_read\<close>. Arguments: the session, the context it is attached to, \<open>count\<close>,
  whether the first \<open>mutex_lock_interruptible\<close> acquires the mutex, \<open>O_NONBLOCK\<close>, the
  events while suspended, and whether \<open>copy_to_user\<close> can write the buffer. The result is
  \<open>None\<close> when the call does not return; otherwise the error or the number of bytes and the
  record copied to the buffer, and the session.\<close>

definition tagfd_read ::
  "tag_watcher \<Rightarrow> tag_ctx \<Rightarrow> nat \<Rightarrow> bool \<Rightarrow> bool \<Rightarrow> wait_event list \<Rightarrow> bool
     \<Rightarrow> ((errno + nat \<times> tag_t) \<times> tag_watcher) option" where
  "tagfd_read watcher ctx count locked nonblock evs writable =
     (if count < sizeof_tag_t then Some (Inl EINVAL, watcher)
      else if \<not> locked then Some (Inl ERESTARTSYS, watcher)
      else (case read_wait (ts_lastRead watcher) (tag ctx) nonblock evs of
              None \<Rightarrow> None
            | Some (Inl e) \<Rightarrow> Some (Inl e, watcher)
            | Some (Inr stored) \<Rightarrow>
                if \<not> writable then Some (Inl EFAULT, watcher)
                else Some (Inr (sizeof_tag_t, stored),
                           watcher\<lparr>ts_lastRead := timestamp stored\<rparr>)))"

text \<open>\<open>tagfd_write\<close>. Arguments: the context the session is attached to, \<open>count\<close>,
  whether \<open>mutex_lock_interruptible\<close> acquires the mutex, and the record in the user's
  buffer (\<open>None\<close> when \<open>copy_from_user\<close> cannot read it). The result is the error or the
  number of bytes, and the context.\<close>

definition tagfd_write ::
  "tag_ctx \<Rightarrow> nat \<Rightarrow> bool \<Rightarrow> tag_t option \<Rightarrow> (errno + nat) \<times> tag_ctx" where
  "tagfd_write ctx count locked buf =
     (if count < sizeof_tag_t then (Inl EINVAL, ctx)
      else if \<not> locked then (Inl ERESTARTSYS, ctx)
      else (case buf of
              None \<Rightarrow> (Inl EFAULT, ctx)
            | Some tmp \<Rightarrow>
                if dtype (tag ctx) \<noteq> dtype tmp then (Inl EPERM, ctx)
                else if timestamp (tag ctx) \<ge> timestamp tmp then (Inl EINVAL, ctx)
                else (Inr sizeof_tag_t, ctx\<lparr>tag := tmp\<rparr>)))"

text \<open>The poll bits, from the kernel's \<open>poll.h\<close>.\<close>

definition POLLIN :: "32 word" where "POLLIN = 0x0001"
definition POLLOUT :: "32 word" where "POLLOUT = 0x0004"
definition POLLRDNORM :: "32 word" where "POLLRDNORM = 0x0040"
definition POLLWRNORM :: "32 word" where "POLLWRNORM = 0x0100"

text \<open>\<open>tagfd_poll\<close> returns \<open>unsigned int\<close>; \<open>-ERESTARTSYS\<close> is converted to it.\<close>

definition tagfd_poll :: "tag_watcher \<Rightarrow> tag_ctx \<Rightarrow> bool \<Rightarrow> 32 word" where
  "tagfd_poll watcher ctx locked =
     (if \<not> locked then word_of_int (- errno_value ERESTARTSYS)
      else (let mask = 0;
                mask = (if ts_lastRead watcher \<noteq> timestamp (tag ctx)
                        then mask OR (POLLIN OR POLLRDNORM) else mask);
                mask = mask OR (POLLOUT OR POLLWRNORM)
            in mask))"

text \<open>A readiness mask contains a set of bits when all of them are set. \<open>READABLE\<close> and
  \<open>WRITABLE\<close> are the bits \<open>tagfd_poll\<close> sets for the two conditions.\<close>

definition mask_has :: "32 word \<Rightarrow> 32 word \<Rightarrow> bool" where
  "mask_has m bits = (m AND bits = bits)"

definition READABLE :: "32 word" where
  "READABLE = POLLIN OR POLLRDNORM"

definition WRITABLE :: "32 word" where
  "WRITABLE = POLLOUT OR POLLWRNORM"

subsection \<open>Master device file operations\<close>

text \<open>\<open>atomic_dec_and_test\<close> decrements and tests the new value for zero.\<close>

definition tagfd_masterOpen :: "module_state \<Rightarrow> (errno + unit) \<times> module_state" where
  "tagfd_masterOpen s =
     (let s1 = s\<lparr>gl_masterAvailable := gl_masterAvailable s - 1\<rparr>
      in if \<not> (gl_masterAvailable s1 = 0)
         then (Inl EBUSY, s1\<lparr>gl_masterAvailable := gl_masterAvailable s1 + 1\<rparr>)
         else (Inr (), s1))"

definition tagfd_masterRelease :: "module_state \<Rightarrow> module_state" where
  "tagfd_masterRelease s = s\<lparr>gl_masterAvailable := gl_masterAvailable s + 1\<rparr>"

text \<open>\<open>struct timespec\<close> as \<open>getnstimeofday\<close> fills it: two signed 64-bit integers.\<close>

record timespec =
  tv_sec :: int
  tv_nsec :: int

text \<open>C's integer division truncates towards zero.\<close>

definition c_div :: "int \<Rightarrow> int \<Rightarrow> int" where
  "c_div a b = sgn a * sgn b * (\<bar>a\<bar> div \<bar>b\<bar>)"

text \<open>The three assignments to \<open>ent.timestamp\<close>, in 64-bit unsigned arithmetic.\<close>

definition now_ms :: "timespec \<Rightarrow> timestamp_t" where
  "now_ms ts = (let t = word_of_int (tv_sec ts);
                    t = t * 1000;
                    t = t + word_of_int (c_div (tv_nsec ts) 1000000)
                in t)"

text \<open>The \<open>switch\<close> on \<open>econf->dtype\<close>.\<close>

definition dtype_switch :: "8 word \<Rightarrow> bool" where
  "dtype_switch d =
     (if d = DT_INT8 then True else if d = DT_UINT8 then True
      else if d = DT_INT16 then True else if d = DT_UINT16 then True
      else if d = DT_INT32 then True else if d = DT_UINT32 then True
      else if d = DT_INT64 then True else if d = DT_UINT64 then True
      else if d = DT_REAL32 then True else if d = DT_REAL64 then True
      else if d = DT_TIMESTAMP then True else if d = DT_STRING then True
      else False)"

text \<open>The loop over the bytes of the name: \<open>False\<close> at the first byte \<open>strchr\<close> does not
  find.\<close>

fun name_chars_loop :: "string \<Rightarrow> bool" where
  "name_chars_loop [] = True"
| "name_chars_loop (c # cs) =
     (if \<not> strchr validTagNameChars c then False else name_chars_loop cs)"

text \<open>\<open>tagfd_construct_tag\<close>: \<open>strncpy\<close> keeps at most \<open>TAG_NAME_LENGTH - 1\<close> bytes of the
  name, in an array that is zero before. The results of \<open>cdev_add\<close> and of
  \<open>device_create\<close> are arguments: 0 or the error the kernel reports.\<close>

definition tagfd_construct_tag :: "tag_t \<Rightarrow> string \<Rightarrow> int \<Rightarrow> int \<Rightarrow> int + tag_ctx" where
  "tagfd_construct_tag ent nm cdev_add_rc device_create_rc =
     (let ectx = \<lparr>tag = ent, name = take (TAG_NAME_LENGTH - 1) nm\<rparr>
      in if cdev_add_rc \<noteq> 0 then Inl cdev_add_rc
         else if device_create_rc \<noteq> 0 then Inl device_create_rc
         else Inr ectx)"

text \<open>The warnings \<open>tagfd_masterWrite\<close> prints, one for each place it fails.\<close>

datatype warning = Invalid_count | Fetch_failed | Invalid_action | At_maximum
  | Invalid_datatype | Not_null_terminated | Empty_name | Invalid_name | Name_exists
  | Snprintf_failed | Create_failed

text \<open>\<open>tagfd_masterWrite\<close>. Arguments: the globals, the clock, \<open>count\<close>, the record in the
  user's buffer (\<open>None\<close> when \<open>copy_from_user\<close> cannot read it), and the kernel's results
  for \<open>cdev_add\<close> and \<open>device_create\<close>. The result is the error with the warning printed,
  or the number of bytes; and the globals.\<close>

definition tagfd_masterWrite ::
  "module_state \<Rightarrow> timespec \<Rightarrow> nat \<Rightarrow> tag_config option \<Rightarrow> int \<Rightarrow> int
     \<Rightarrow> (errno \<times> warning + nat) \<times> module_state" where
  "tagfd_masterWrite s ts count buf cdev_add_rc device_create_rc =
     (let ent = \<lparr>tvalue = replicate 16 0, timestamp = now_ms ts,
                 quality = QUALITY_UNCERTAIN, dtype = 0\<rparr>
      in if count < sizeof_tag_config then (Inl (EINVAL, Invalid_count), s)
         else (case buf of
                 None \<Rightarrow> (Inl (EFAULT, Fetch_failed), s)
               | Some econf \<Rightarrow>
         if action econf \<noteq> 0x2B then (Inl (EINVAL, Invalid_action), s)
         else if gl_nEntities s = max_tags s then (Inl (ENOMEM, At_maximum), s)
         else if \<not> dtype_switch (cfg_dtype econf) then (Inl (EINVAL, Invalid_datatype), s)
         else (let ent = ent\<lparr>dtype := cfg_dtype econf\<rparr>
               in if cfg_name econf ! (TAG_NAME_LENGTH - 1) \<noteq> NUL
                  then (Inl (EINVAL, Not_null_terminated), s)
                  else (let namelen = strlen (cfg_name econf)
                        in if namelen = 0 then (Inl (EINVAL, Empty_name), s)
                           else if \<not> name_chars_loop (take namelen (cfg_name econf))
                           then (Inl (EINVAL, Invalid_name), s)
                           else if tagfd_isNameTaken s (cstring (cfg_name econf)) namelen
                           then (Inl (EEXIST, Name_exists), s)
                           else (let gl_newNameBuffer = PREFIX @ cstring (cfg_name econf);
                                     result = length gl_newNameBuffer
                                 in if result = sizeof_tag_config + 100
                                    then (Inl (ENOTRECOVERABLE, Snprintf_failed), s)
                                    else (case tagfd_construct_tag ent gl_newNameBuffer
                                                 cdev_add_rc device_create_rc of
                                            Inl err \<Rightarrow> (Inl (EOTHER err, Create_failed), s)
                                          | Inr ectx \<Rightarrow>
                                              (Inr sizeof_tag_config,
                                               s\<lparr>gl_tags := gl_tags s @ [ectx]\<rparr>)))))))"

text \<open>\<open>tagfd_init\<close>, when every kernel call succeeds: no tags, the master device free.\<close>

definition tagfd_init :: "int \<Rightarrow> errno + module_state" where
  "tagfd_init m =
     (if m < 1 then Inl EINVAL
      else Inr \<lparr>max_tags = m, gl_tags = [], gl_masterAvailable = 1\<rparr>)"

subsection \<open>The client's creation request\<close>

text \<open>\<open>go\<close> of tfdconfig: the record is zeroed, then \<open>strncpy\<close> copies at most
  \<open>TAG_NAME_LENGTH - 1\<close> bytes of the name (a C string) into it.\<close>

definition go_request :: "string \<Rightarrow> 8 word \<Rightarrow> tag_config" where
  "go_request nm d =
     \<lparr>action = 0x2B, cfg_dtype = d,
      cfg_name = take (TAG_NAME_LENGTH - 1) nm
                 @ replicate (TAG_NAME_LENGTH - length (take (TAG_NAME_LENGTH - 1) nm)) NUL\<rparr>"

section \<open>Reachable states of the module\<close>

text \<open>The names clients see: the device of a tag is \<open>PREFIX\<close> followed by the name, and
  \<open>/dev/tagfd/name\<close> is its node.\<close>

definition tag_names :: "module_state \<Rightarrow> string list" where
  "tag_names s = map (\<lambda>c. drop (length PREFIX) (name c)) (gl_tags s)"

text \<open>The states the module reaches after \<open>tagfd_init\<close>, with the number of sessions that
  hold the master device open: the kernel calls \<open>release\<close> and \<open>write\<close> on a file only
  after its \<open>open\<close> returned 0, and a tag's file operations only on a context in
  \<open>gl_tags\<close>. The parameter \<open>clock\<close> says which times \<open>getnstimeofday\<close> may return.
  Reading and polling a tag leave the globals as they are.\<close>

inductive reachable :: "(timespec \<Rightarrow> bool) \<Rightarrow> module_state \<Rightarrow> nat \<Rightarrow> bool"
  for clock :: "timespec \<Rightarrow> bool" where
  r_init: "tagfd_init m = Inr s \<Longrightarrow> reachable clock s 0"
| r_open: "reachable clock s n \<Longrightarrow> tagfd_masterOpen s = (Inr (), s') \<Longrightarrow>
     reachable clock s' (Suc n)"
| r_open_failed: "reachable clock s n \<Longrightarrow> tagfd_masterOpen s = (Inl e, s') \<Longrightarrow>
     reachable clock s' n"
| r_release: "reachable clock s (Suc n) \<Longrightarrow> reachable clock (tagfd_masterRelease s) n"
| r_masterWrite: "reachable clock s (Suc n) \<Longrightarrow> clock ts \<Longrightarrow>
     tagfd_masterWrite s ts count buf cdev_add_rc device_create_rc = (r, s') \<Longrightarrow>
     reachable clock s' (Suc n)"
| r_write: "reachable clock s n \<Longrightarrow> i < length (gl_tags s) \<Longrightarrow>
     tagfd_write (gl_tags s ! i) count locked buf = (r, ctx') \<Longrightarrow>
     reachable clock (s\<lparr>gl_tags := (gl_tags s)[i := ctx']\<rparr>) n"

section \<open>Tag-to-text functions (src/tagfd-toolkit.c)\<close>

subsection \<open>The members of the union\<close>

text \<open>On x86-64 a member of \<open>k\<close> bytes is the first \<open>k\<close> bytes of the union, the lowest
  byte first. The signed members are the same bytes, read with \<open>sint\<close>.\<close>

definition le_word :: "8 word list \<Rightarrow> 'a::len word" where
  "le_word bs = word_of_int (horner_sum uint (2 ^ 8) bs)"

definition le_bytes :: "nat \<Rightarrow> 'a::len word \<Rightarrow> 8 word list" where
  "le_bytes k x = map (\<lambda>i. ucast (drop_bit (8 * i) x)) [0..<k]"

definition value_u8 :: "8 word list \<Rightarrow> 8 word" where
  "value_u8 v = le_word (take 1 v)"

definition value_u16 :: "8 word list \<Rightarrow> 16 word" where
  "value_u16 v = le_word (take 2 v)"

definition value_u32 :: "8 word list \<Rightarrow> 32 word" where
  "value_u32 v = le_word (take 4 v)"

definition value_u64 :: "8 word list \<Rightarrow> 64 word" where
  "value_u64 v = le_word (take 8 v)"

text \<open>The bytes of the member \<open>string\<close>, as characters.\<close>

definition value_string :: "8 word list \<Rightarrow> string" where
  "value_string v = map (\<lambda>b. char_of (unat b)) (take TAG_STRING_VALUE_LENGTH v)"

text \<open>A store through a pointer to a member overwrites the bytes of the member and leaves
  the other bytes of the union.\<close>

definition store_member :: "8 word list \<Rightarrow> 8 word list \<Rightarrow> 8 word list" where
  "store_member v bs = bs @ drop (length bs) v"

text \<open>The number of bytes of the member an integer data type selects.\<close>

definition member_size :: "8 word \<Rightarrow> nat option" where
  "member_size d =
     (if d = DT_INT8 \<or> d = DT_UINT8 then Some 1
      else if d = DT_INT16 \<or> d = DT_UINT16 then Some 2
      else if d = DT_INT32 \<or> d = DT_UINT32 then Some 4
      else if d = DT_INT64 \<or> d = DT_UINT64 \<or> d = DT_TIMESTAMP then Some 8
      else None)"

subsection \<open>Conversions of printf\<close>

definition digit_char :: "nat \<Rightarrow> char" where
  "digit_char d = char_of (48 + d)"

text \<open>\<open>%u\<close>, \<open>%lu\<close>: the decimal digits of an unsigned value.\<close>

fun printf_u :: "nat \<Rightarrow> string" where
  "printf_u n = (if n < 10 then [digit_char n]
                 else printf_u (n div 10) @ [digit_char (n mod 10)])"

text \<open>\<open>%d\<close>, \<open>%ld\<close>: a minus sign in front of the digits of a negative value.\<close>

definition printf_d :: "int \<Rightarrow> string" where
  "printf_d i = (if i < 0 then CHR ''-'' # printf_u (nat (- i)) else printf_u (nat i))"

text \<open>The conversions of floating-point numbers are the C library's. They are arguments of
  the model: what \<open>%.9e\<close> and \<open>%.17le\<close> print for the bits of a \<open>float\<close> and of a
  \<open>double\<close>, and what \<open>%e\<close> and \<open>%le\<close> of \<open>sscanf\<close> read from the rest of the input
  (\<open>None\<close> when the conversion fails).\<close>

record float_conv =
  printf_e9 :: "32 word \<Rightarrow> string"
  printf_e17 :: "64 word \<Rightarrow> string"
  scanf_e :: "string \<Rightarrow> 32 word option"
  scanf_le :: "string \<Rightarrow> 64 word option"

subsection \<open>The machine-readable form\<close>

definition tag_quality_toStr :: "tag_t \<Rightarrow> string" where
  "tag_quality_toStr e = printf_u (unat (quality e))"

definition tag_timestamp_toStr :: "tag_t \<Rightarrow> string" where
  "tag_timestamp_toStr e = printf_u (unat (timestamp e))"

text \<open>\<open>tag_value_toStr\<close>: \<open>evstr\<close> is zeroed first, so after the \<open>memcpy\<close> of a string
  value it holds the C string of the sixteen bytes.\<close>

definition tag_value_toStr :: "float_conv \<Rightarrow> tag_t \<Rightarrow> string" where
  "tag_value_toStr fl e =
     (if dtype e = DT_INT8 then printf_d (sint (value_u8 (tvalue e)))
      else if dtype e = DT_UINT8 then printf_u (unat (value_u8 (tvalue e)))
      else if dtype e = DT_INT16 then printf_d (sint (value_u16 (tvalue e)))
      else if dtype e = DT_UINT16 then printf_u (unat (value_u16 (tvalue e)))
      else if dtype e = DT_INT32 then printf_d (sint (value_u32 (tvalue e)))
      else if dtype e = DT_UINT32 then printf_u (unat (value_u32 (tvalue e)))
      else if dtype e = DT_INT64 then printf_d (sint (value_u64 (tvalue e)))
      else if dtype e = DT_UINT64 then printf_u (unat (value_u64 (tvalue e)))
      else if dtype e = DT_REAL32 then printf_e9 fl (value_u32 (tvalue e))
      else if dtype e = DT_REAL64 then printf_e17 fl (value_u64 (tvalue e))
      else if dtype e = DT_TIMESTAMP then printf_u (unat (value_u64 (tvalue e)))
      else if dtype e = DT_STRING then cstring (value_string (tvalue e))
      else [])"

definition tag_toStr_partial :: "float_conv \<Rightarrow> tag_t \<Rightarrow> string" where
  "tag_toStr_partial fl e =
     tag_quality_toStr e @ '' '' @ tag_timestamp_toStr e @ '' '' @ tag_value_toStr fl e"

subsection \<open>Conversions of sscanf\<close>

text \<open>\<open>isspace\<close> and \<open>isdigit\<close> in the C locale.\<close>

definition isspace :: "char \<Rightarrow> bool" where
  "isspace c = (c \<in> set [CHR '' '', CHR 0x09, CHR 0x0A, CHR 0x0B, CHR 0x0C, CHR 0x0D])"

definition isdigit :: "char \<Rightarrow> bool" where
  "isdigit c = (48 \<le> (of_char c :: nat) \<and> (of_char c :: nat) \<le> 57)"

definition digits_value :: "string \<Rightarrow> nat" where
  "digits_value ds = foldl (\<lambda>a c. 10 * a + (of_char c - 48)) 0 ds"

text \<open>The input of an integer conversion: white space is skipped, then come an optional
  sign and the decimal digits, at least one. The result is \<open>None\<close> when none is found;
  otherwise whether there is a minus sign, the number the digits denote, and the rest of
  the input.\<close>

definition scan_integer :: "string \<Rightarrow> (bool \<times> nat \<times> string) option" where
  "scan_integer s =
     (let s1 = dropWhile isspace s;
          (neg, s2) = (case s1 of
                         [] \<Rightarrow> (False, s1)
                       | c # r \<Rightarrow> if c = CHR ''-'' then (True, r)
                                  else if c = CHR ''+'' then (False, r)
                                  else (False, s1));
          ds = takeWhile isdigit s2
      in if ds = [] then None else Some (neg, digits_value ds, dropWhile isdigit s2))"

text \<open>The 64-bit value of the digits, as glibc's \<open>sscanf\<close> computes it with \<open>strtoul\<close>
  and \<open>strtol\<close>: out of range it is the nearest limit (C leaves that case undefined).
  The value is then converted to the type of the object it is stored to.\<close>

definition strtoul_value :: "bool \<Rightarrow> nat \<Rightarrow> 64 word" where
  "strtoul_value neg n =
     (if n > 2 ^ 64 - 1 then - 1 else if neg then - of_nat n else of_nat n)"

definition strtol_value :: "bool \<Rightarrow> nat \<Rightarrow> 64 word" where
  "strtol_value neg n =
     (if neg then (if n > 2 ^ 63 then 2 ^ 63 else - of_nat n)
      else (if n > 2 ^ 63 - 1 then 2 ^ 63 - 1 else of_nat n))"

text \<open>The conversions \<open>%hu %lu\<close> at the head of every format. \<open>Inl n\<close> is the value
  \<open>sscanf\<close> returns when it stops there (\<open>EOF\<close> is -1: the input ended before the first
  conversion); otherwise the two values stored and the rest of the input.\<close>

definition sscanf_head :: "string \<Rightarrow> int + 16 word \<times> 64 word \<times> string" where
  "sscanf_head encoded =
     (if dropWhile isspace encoded = [] then Inl (- 1)
      else (case scan_integer encoded of
              None \<Rightarrow> Inl 0
            | Some (neg, n, r1) \<Rightarrow>
                (case scan_integer r1 of
                   None \<Rightarrow> Inl 1
                 | Some (neg', n', r2) \<Rightarrow>
                     Inr (ucast (strtoul_value neg n), strtoul_value neg' n', r2))))"

text \<open>The third conversion of a numeric format: \<open>conv\<close> gives the bytes stored to the
  member when the conversion matches. The result is the value \<open>sscanf\<close> returns and, when
  \<open>q\<close> and \<open>ts\<close> were stored, their values with the union \<open>v\<close>.\<close>

definition sscanf_3 ::
  "(string \<Rightarrow> 8 word list option) \<Rightarrow> string \<Rightarrow> 8 word list
     \<Rightarrow> int \<times> (16 word \<times> 64 word \<times> 8 word list) option" where
  "sscanf_3 conv encoded v =
     (case sscanf_head encoded of
        Inl n \<Rightarrow> (n, None)
      | Inr (q, ts, r) \<Rightarrow>
          (case conv r of
             None \<Rightarrow> (2, Some (q, ts, v))
           | Some bs \<Rightarrow> (3, Some (q, ts, store_member v bs))))"

definition conv_unsigned :: "nat \<Rightarrow> string \<Rightarrow> 8 word list option" where
  "conv_unsigned k r =
     (case scan_integer r of
        None \<Rightarrow> None
      | Some (neg, n, _) \<Rightarrow> Some (le_bytes k (strtoul_value neg n)))"

definition conv_signed :: "nat \<Rightarrow> string \<Rightarrow> 8 word list option" where
  "conv_signed k r =
     (case scan_integer r of
        None \<Rightarrow> None
      | Some (neg, n, _) \<Rightarrow> Some (le_bytes k (strtol_value neg n)))"

text \<open>\<open>strncpy\<close> of a C string to an array of \<open>n\<close> bytes: the rest is filled with
  zeros.\<close>

definition strncpy :: "string \<Rightarrow> nat \<Rightarrow> 8 word list" where
  "strncpy src n = map of_char (take n src) @ replicate (n - length src) 0"

text \<open>What a call does: it returns a value, or its behaviour is undefined in C.\<close>

datatype 'a outcome = Undefined | Defined 'a

text \<open>The case of a string tag: \<open>sscanf\<close> with the format \<open>%hu %lu %n\<close>, then
  \<open>memset\<close> and \<open>strncpy\<close> from \<open>encoded + pos\<close>, both before \<open>n\<close> is tested. The
  white space in front of \<open>%n\<close> is skipped, so \<open>encoded + pos\<close> is the rest of the
  input after it; \<open>sscanf\<close> does not count \<open>%n\<close>. When \<open>sscanf\<close> stops before
  \<open>%n\<close>, \<open>pos\<close> is not initialised and \<open>strncpy\<close> reads through an indeterminate
  pointer: the behaviour is undefined.\<close>

definition sscanf_string ::
  "string \<Rightarrow> (int \<times> (16 word \<times> 64 word \<times> 8 word list) option) outcome" where
  "sscanf_string encoded =
     (case sscanf_head encoded of
        Inl n \<Rightarrow> Undefined
      | Inr (q, ts, r) \<Rightarrow>
          Defined (2, Some (q, ts, strncpy (dropWhile isspace r) TAG_STRING_VALUE_LENGTH)))"

text \<open>\<open>tag_fromStr_partial\<close>. Arguments: the input, the data type, the record \<open>*output\<close>
  before the call, and the bytes the local \<open>v\<close> holds before \<open>sscanf\<close> (it is not
  initialised). A defined result is \<open>None\<close> for \<open>false\<close>, otherwise \<open>*output\<close> after
  the call: its \<open>dtype\<close> is not assigned.\<close>

definition tag_fromStr_partial ::
  "float_conv \<Rightarrow> string \<Rightarrow> 8 word \<Rightarrow> tag_t \<Rightarrow> 8 word list \<Rightarrow> tag_t option outcome" where
  "tag_fromStr_partial fl encoded dt output v =
     (let scanned =
        (if dt = DT_INT8 then Some (Defined (sscanf_3 (conv_signed 1) encoded v))
         else if dt = DT_UINT8 then Some (Defined (sscanf_3 (conv_unsigned 1) encoded v))
         else if dt = DT_INT16 then Some (Defined (sscanf_3 (conv_signed 2) encoded v))
         else if dt = DT_UINT16 then Some (Defined (sscanf_3 (conv_unsigned 2) encoded v))
         else if dt = DT_INT32 then Some (Defined (sscanf_3 (conv_signed 4) encoded v))
         else if dt = DT_UINT32 then Some (Defined (sscanf_3 (conv_unsigned 4) encoded v))
         else if dt = DT_INT64 then Some (Defined (sscanf_3 (conv_signed 8) encoded v))
         else if dt = DT_UINT64 then Some (Defined (sscanf_3 (conv_unsigned 8) encoded v))
         else if dt = DT_REAL32
           then Some (Defined (sscanf_3 (\<lambda>r. map_option (le_bytes 4) (scanf_e fl r))
                                 encoded v))
         else if dt = DT_REAL64
           then Some (Defined (sscanf_3 (\<lambda>r. map_option (le_bytes 8) (scanf_le fl r))
                                 encoded v))
         else if dt = DT_TIMESTAMP then Some (Defined (sscanf_3 (conv_unsigned 8) encoded v))
         else if dt = DT_STRING then Some (sscanf_string encoded)
         else None)
      in case scanned of
           None \<Rightarrow> Defined None
         | Some Undefined \<Rightarrow> Undefined
         | Some (Defined (n, stored)) \<Rightarrow>
             if \<not> (n = 3 \<or> (n = 2 \<and> dt = DT_STRING)) then Defined None
             else (case stored of
                     None \<Rightarrow> Defined None
                   | Some (q, ts, v') \<Rightarrow>
                       Defined (Some (output\<lparr>quality := q, timestamp := ts,
                                              tvalue := v'\<rparr>))))"

text \<open>A string tag whose sixteen bytes start with a space, and conversions of
  floating-point numbers that print nothing and read nothing.\<close>

definition no_floats :: float_conv where
  "no_floats = \<lparr>printf_e9 = (\<lambda>_. []), printf_e17 = (\<lambda>_. []),
                scanf_e = (\<lambda>_. None), scanf_le = (\<lambda>_. None)\<rparr>"

definition tag_spaced :: tag_t where
  "tag_spaced = \<lparr>tvalue = map of_char '' 23456789abcdefg'', timestamp = 5,
                 quality = QUALITY_GOOD, dtype = DT_STRING\<rparr>"

section \<open>The closed set of data types, and concrete inputs\<close>

definition valid_dtypes :: "8 word set" where
  "valid_dtypes = {DT_INT8, DT_UINT8, DT_INT16, DT_UINT16, DT_INT32, DT_UINT32, DT_INT64,
     DT_UINT64, DT_REAL32, DT_REAL64, DT_TIMESTAMP, DT_STRING}"

text \<open>One second after the epoch.\<close>

definition ts0 :: timespec where
  "ts0 = \<lparr>tv_sec = 1, tv_nsec = 0\<rparr>"


definition state_held :: module_state where
  "state_held = \<lparr>max_tags = 64, gl_tags = [], gl_masterAvailable = 0\<rparr>"

text \<open>The context of a tag \<open>abc\<close> of type \<open>DT_INT8\<close> created at \<open>ts0\<close>, and the globals
  that hold it alone.\<close>

definition ctx_abc :: tag_ctx where
  "ctx_abc = \<lparr>tag = \<lparr>tvalue = replicate 16 0, timestamp = 1000,
                      quality = QUALITY_UNCERTAIN, dtype = DT_INT8\<rparr>,
              name = ''tagfd!abc''\<rparr>"

definition state_abc :: module_state where
  "state_abc = \<lparr>max_tags = 64, gl_tags = [ctx_abc], gl_masterAvailable = 0\<rparr>"

text \<open>The same tag in a module loaded with \<open>max_tags = 1\<close>.\<close>

definition state_full :: module_state where
  "state_full = \<lparr>max_tags = 1, gl_tags = [ctx_abc], gl_masterAvailable = 0\<rparr>"

text \<open>Contexts of a \<open>DT_UINT32\<close> tag with stored timestamp 7, of one with stored timestamp
  5000, and of a \<open>DT_REAL64\<close> tag.\<close>

definition cell7 :: tag_ctx where
  "cell7 = \<lparr>tag = \<lparr>tvalue = replicate 16 0, timestamp = 7, quality = 0, dtype = DT_UINT32\<rparr>,
            name = ''tagfd!T''\<rparr>"

definition tag5000 :: tag_ctx where
  "tag5000 = \<lparr>tag = \<lparr>tvalue = replicate 16 0, timestamp = 5000, quality = 0,
                      dtype = DT_UINT32\<rparr>,
              name = ''tagfd!V''\<rparr>"

definition cell_real64 :: tag_ctx where
  "cell_real64 = \<lparr>tag = \<lparr>tvalue = replicate 16 0, timestamp = 1000, quality = 0,
                          dtype = DT_REAL64\<rparr>,
                  name = ''tagfd!U''\<rparr>"

section \<open>Basic facts\<close>

lemmas DT_defs = DT_INVALID_def DT_INT8_def DT_UINT8_def DT_INT16_def DT_UINT16_def
  DT_INT32_def DT_UINT32_def DT_INT64_def DT_UINT64_def DT_REAL32_def DT_REAL64_def
  DT_TIMESTAMP_def DT_STRING_def

declare read_wait.simps [simp del]

lemma read_wait_differs:
  "lastRead \<noteq> timestamp stored \<Longrightarrow> read_wait lastRead stored nonblock evs = Some (Inr stored)"
  by (simp add: read_wait.simps)


section \<open>Writing a tag\<close>

text \<open>
  Claim C4, as stated, fails: it lets every write whose candidate has the stored data type
  and a greater timestamp succeed. With the stored timestamp 5000 and a candidate of the
  stored data type with timestamp 5001, a write whose lock acquisition is interrupted fails
  with \<open>ERESTARTSYS\<close>, and a write with \<open>count = 31\<close> fails with \<open>EINVAL\<close>; the
  stored record is as before in both.
\<close>

theorem tagfd_write_timestamp_counterexample:
  "dtype ((tag tag5000)\<lparr>timestamp := 5001\<rparr>) = dtype (tag tag5000)
   \<and> timestamp (tag tag5000) < timestamp ((tag tag5000)\<lparr>timestamp := 5001\<rparr>)
   \<and> tagfd_write tag5000 32 False (Some ((tag tag5000)\<lparr>timestamp := 5001\<rparr>))
       = (Inl ERESTARTSYS, tag5000)
   \<and> tagfd_write tag5000 31 True (Some ((tag tag5000)\<lparr>timestamp := 5001\<rparr>))
       = (Inl EINVAL, tag5000)"
  by (simp add: tagfd_write_def tag5000_def sizeof_tag_t_def)

text \<open>
  Claim C4, amended. Take a write whose candidate record has the stored data type. With a
  buffer smaller than one record it fails with \<open>EINVAL\<close>; otherwise, when the lock
  acquisition is interrupted, it fails with \<open>ERESTARTSYS\<close>; otherwise, when the
  candidate's timestamp is at most the stored timestamp, it fails with \<open>EINVAL\<close>, the
  error of a stale timestamp; in these three cases the context is as before. Otherwise the
  candidate's timestamp is greater: the write returns the record size and the stored record
  is the candidate, every field of it.
\<close>

theorem tagfd_write_timestamp_rule:
  assumes "dtype cand = dtype (tag ctx)"
  shows "tagfd_write ctx count locked (Some cand) =
     (if count < sizeof_tag_t then (Inl EINVAL, ctx)
      else if \<not> locked then (Inl ERESTARTSYS, ctx)
      else if timestamp cand \<le> timestamp (tag ctx) then (Inl EINVAL, ctx)
      else (Inr sizeof_tag_t, ctx\<lparr>tag := cand\<rparr>))"
  using assms by (simp add: tagfd_write_def)

theorem tagfd_write_timestamp_rule_witness:
  "tagfd_write tag5000 32 True (Some ((tag tag5000)\<lparr>timestamp := 5000\<rparr>))
     = (Inl EINVAL, tag5000)
   \<and> tagfd_write tag5000 32 True (Some ((tag tag5000)\<lparr>timestamp := 4999\<rparr>))
     = (Inl EINVAL, tag5000)
   \<and> tagfd_write tag5000 32 True (Some ((tag tag5000)\<lparr>timestamp := 5001\<rparr>))
     = (Inr 32, tag5000\<lparr>tag := (tag tag5000)\<lparr>timestamp := 5001\<rparr>\<rparr>)"
  using tagfd_write_timestamp_rule [of "(tag tag5000)\<lparr>timestamp := 5000\<rparr>" tag5000 32 True]
    tagfd_write_timestamp_rule [of "(tag tag5000)\<lparr>timestamp := 4999\<rparr>" tag5000 32 True]
    tagfd_write_timestamp_rule [of "(tag tag5000)\<lparr>timestamp := 5001\<rparr>" tag5000 32 True]
  by (simp add: sizeof_tag_t_def tag5000_def)

text \<open>
  Claim C5, as stated, fails: it lets every write whose candidate has another data type
  than the stored one fail with the error of a type mismatch. For a tag of type
  \<open>DT_REAL64\<close> and a candidate of type \<open>DT_INT32\<close>, a write whose lock acquisition is
  interrupted fails with \<open>ERESTARTSYS\<close>, and a write with \<open>count = 31\<close> fails with
  \<open>EINVAL\<close>, not with \<open>EPERM\<close>.
\<close>

theorem tagfd_write_mismatch_counterexample:
  "dtype ((tag cell_real64)\<lparr>timestamp := 2000, dtype := DT_INT32\<rparr>) \<noteq> dtype (tag cell_real64)
   \<and> tagfd_write cell_real64 32 False
         (Some ((tag cell_real64)\<lparr>timestamp := 2000, dtype := DT_INT32\<rparr>))
       = (Inl ERESTARTSYS, cell_real64)
   \<and> tagfd_write cell_real64 31 True
         (Some ((tag cell_real64)\<lparr>timestamp := 2000, dtype := DT_INT32\<rparr>))
       = (Inl EINVAL, cell_real64)"
  by (simp add: tagfd_write_def cell_real64_def sizeof_tag_t_def DT_defs)

text \<open>
  Claim C5, amended. A write whose candidate record has another data type than the stored
  one fails: with \<open>EINVAL\<close> when the buffer is smaller than one record, otherwise with
  \<open>ERESTARTSYS\<close> when the lock acquisition is interrupted, otherwise with \<open>EPERM\<close>, the
  error of a type mismatch. And whatever error a write returns (a buffer that is too small,
  an interrupted lock, a buffer that cannot be read, a type mismatch, a stale timestamp),
  the context, and so the stored record with its payload, data type, timestamp and quality,
  is what it was before.
\<close>

theorem tagfd_write_failure:
  "(dtype cand \<noteq> dtype (tag ctx) \<longrightarrow>
      tagfd_write ctx count locked (Some cand) =
        (if count < sizeof_tag_t then (Inl EINVAL, ctx)
         else if \<not> locked then (Inl ERESTARTSYS, ctx)
         else (Inl EPERM, ctx)))
   \<and> (fst (tagfd_write ctx count locked buf) = Inl e \<longrightarrow>
      snd (tagfd_write ctx count locked buf) = ctx)"
  by (auto simp: tagfd_write_def split: option.splits)

theorem tagfd_write_failure_witness:
  "tagfd_write cell_real64 32 True (Some ((tag cell_real64)\<lparr>timestamp := 2000, dtype := DT_INT32\<rparr>))
     = (Inl EPERM, cell_real64)
   \<and> snd (tagfd_write cell_real64 32 True
            (Some ((tag cell_real64)\<lparr>timestamp := 2000, dtype := DT_INT32\<rparr>))) = cell_real64"
  using tagfd_write_failure [where count = 32 and ctx = cell_real64 and locked = True
      and cand = "(tag cell_real64)\<lparr>timestamp := 2000, dtype := DT_INT32\<rparr>"
      and buf = "Some ((tag cell_real64)\<lparr>timestamp := 2000, dtype := DT_INT32\<rparr>)"
      and e = EPERM]
  by (simp add: sizeof_tag_t_def cell_real64_def DT_defs)

section \<open>Reading a tag\<close>




text \<open>A blocking read of a session that has seen the stored timestamp: it stays suspended
  while nothing happens, fails with \<open>ERESTARTSYS\<close> on a signal, and returns the record a
  writer has stored once it wakes with the mutex.\<close>

lemma tagfd_read_blocks:
  assumes "sizeof_tag_t \<le> count" and "ts_lastRead w = timestamp (tag ctx)"
  shows "tagfd_read w ctx count True False [] writable = None"
    and "tagfd_read w ctx count True False (Interrupted # evs) writable
           = Some (Inl ERESTARTSYS, w)"
    and "tagfd_read w ctx count True False (Woken False t # evs) writable
           = Some (Inl ERESTARTSYS, w)"
    and "timestamp t \<noteq> ts_lastRead w \<Longrightarrow>
           tagfd_read w ctx count True False (Woken True t # evs) True
             = Some (Inr (sizeof_tag_t, t), w\<lparr>ts_lastRead := timestamp t\<rparr>)"
  using assms
  by (auto simp: tagfd_read_def read_wait.simps [of _ _ _ "[]"]
      read_wait.simps [of _ _ _ "_ # _"] read_wait_differs)

section \<open>Polling a tag\<close>

text \<open>
  Claim C7, as stated, fails: when the lock acquisition is interrupted, \<open>tagfd_poll\<close>
  returns \<open>-ERESTARTSYS\<close> as its mask, and that mask has neither of the bits for
  writable.
\<close>

theorem tagfd_poll_counterexample:
  "tagfd_poll \<lparr>e_ctx = 0, ts_lastRead = 0\<rparr> cell7 False = 0xFFFFFE00
   \<and> \<not> mask_has (tagfd_poll \<lparr>e_ctx = 0, ts_lastRead = 0\<rparr> cell7 False) WRITABLE"
  by (simp add: tagfd_poll_def mask_has_def WRITABLE_def POLLOUT_def POLLWRNORM_def)

text \<open>
  Claim C7, amended. For every poll that acquires the lock, the mask contains the bits for
  readable if and only if \<open>ts_lastRead\<close> differs from the stored timestamp, and it
  contains the bits for writable.
\<close>

theorem tagfd_poll_mask:
  "(mask_has (tagfd_poll w ctx True) READABLE \<longleftrightarrow> ts_lastRead w \<noteq> timestamp (tag ctx))
   \<and> mask_has (tagfd_poll w ctx True) WRITABLE"
  by (simp add: tagfd_poll_def mask_has_def READABLE_def WRITABLE_def POLLIN_def POLLOUT_def
      POLLRDNORM_def POLLWRNORM_def)

section \<open>The master device\<close>




section \<open>Creating a tag\<close>

lemma dtype_switch_iff: "dtype_switch d \<longleftrightarrow> d \<in> valid_dtypes"
  by (auto simp: dtype_switch_def valid_dtypes_def)

lemma name_chars_loop_Cons:
  "name_chars_loop (c # cs) = (strchr validTagNameChars c \<and> name_chars_loop cs)"
  apply (subst name_chars_loop.simps(2))
  apply (rule if_split [THEN iffD2])
  apply blast
  done

lemma name_chars_loop_iff:
  "name_chars_loop cs \<longleftrightarrow> (\<forall>c\<in>set cs. strchr validTagNameChars c)"
proof (induction cs)
  case Nil
  show ?case by (simp only: name_chars_loop.simps(1) list.set ball_empty)
next
  case (Cons a cs)
  show ?case by (simp only: name_chars_loop_Cons Cons.IH list.set ball_simps)
qed

lemma take_strlen: "take (strlen b) b = cstring b"
  unfolding strlen_def cstring_def by (rule takeWhile_eq_take [symmetric])

lemma strlen_cstring: "strlen b = length (cstring b)"
  by (simp add: strlen_def cstring_def)

lemma NUL_notin_cstring: "NUL \<notin> set (cstring b)"
  by (auto simp: cstring_def dest: set_takeWhileD)

lemma name_chars_ok_iff:
  "name_chars_loop (take (strlen b) b) \<longleftrightarrow> set (cstring b) \<subseteq> set validTagNameChars"
  using NUL_notin_cstring [of b]
  by (auto simp: name_chars_loop_iff take_strlen strchr_def)

lemma strncmp_eq_take: "strncmp_eq a b n \<longleftrightarrow> take n a = take n b"
  by (induction a b n rule: strncmp_eq.induct) auto

lemma isNameTaken_loop_iff:
  "isNameTaken_loop cs nm n \<longleftrightarrow> (\<exists>c\<in>set cs. take n (name c) = take n nm)"
  by (induction cs) (auto simp: strncmp_eq_take)

lemma tagfd_isNameTaken_iff:
  "tagfd_isNameTaken s nm n \<longleftrightarrow>
     (\<exists>c\<in>set (gl_tags s). take (min n 16) (name c) = take (min n 16) nm)"
  by (auto simp: tagfd_isNameTaken_def isNameTaken_loop_iff TAG_STRING_VALUE_LENGTH_def
      Let_def min_def)

lemma cstring_length_less:
  assumes "b \<noteq> []" "last b = NUL"
  shows "length (cstring b) < length b"
proof -
  have "NUL \<in> set b" using assms last_in_set by metis
  then have "takeWhile (\<lambda>c. c \<noteq> NUL) b \<noteq> b"
    by (auto simp: takeWhile_eq_all_conv)
  moreover have "length (takeWhile (\<lambda>c. c \<noteq> NUL) b) \<le> length b"
    by (rule length_takeWhile_le)
  moreover have "length (takeWhile (\<lambda>c. c \<noteq> NUL) b) = length b \<Longrightarrow>
      takeWhile (\<lambda>c. c \<noteq> NUL) b = b"
    by (metis takeWhile_eq_take take_all order_refl)
  ultimately show ?thesis
    unfolding cstring_def by linarith
qed

text \<open>\<open>tagfd_masterWrite\<close> on a request that was fetched, as one chain of tests.\<close>

lemma masterWrite_chain:
  assumes "sizeof_tag_config \<le> count" and "length (cfg_name econf) = TAG_NAME_LENGTH"
  shows "tagfd_masterWrite s ts count (Some econf) cdev_add_rc device_create_rc =
     (if action econf \<noteq> 0x2B then (Inl (EINVAL, Invalid_action), s)
      else if int (length (gl_tags s)) = max_tags s then (Inl (ENOMEM, At_maximum), s)
      else if cfg_dtype econf \<notin> valid_dtypes then (Inl (EINVAL, Invalid_datatype), s)
      else if last (cfg_name econf) \<noteq> NUL then (Inl (EINVAL, Not_null_terminated), s)
      else if cstring (cfg_name econf) = [] then (Inl (EINVAL, Empty_name), s)
      else if \<not> set (cstring (cfg_name econf)) \<subseteq> set validTagNameChars
        then (Inl (EINVAL, Invalid_name), s)
      else if tagfd_isNameTaken s (cstring (cfg_name econf))
                (length (cstring (cfg_name econf)))
        then (Inl (EEXIST, Name_exists), s)
      else if cdev_add_rc \<noteq> 0 then (Inl (EOTHER cdev_add_rc, Create_failed), s)
      else if device_create_rc \<noteq> 0 then (Inl (EOTHER device_create_rc, Create_failed), s)
      else (Inr sizeof_tag_config,
            s\<lparr>gl_tags := gl_tags s @
                 [\<lparr>tag = \<lparr>tvalue = replicate 16 0, timestamp = now_ms ts,
                           quality = QUALITY_UNCERTAIN, dtype = cfg_dtype econf\<rparr>,
                   name = take (TAG_NAME_LENGTH - 1)
                            (PREFIX @ cstring (cfg_name econf))\<rparr>]\<rparr>))"
proof -
  let ?b = "cfg_name econf"
  have ne: "?b \<noteq> []" using assms(2) by (auto simp: TAG_NAME_LENGTH_def)
  have c: "(count < sizeof_tag_config) = False" using assms(1) by simp
  have l: "?b ! (TAG_NAME_LENGTH - 1) = last ?b"
    using assms(2) ne by (simp add: last_conv_nth)
  have e: "(strlen ?b = 0) = (cstring ?b = [])" by (simp add: strlen_cstring)
  have sh: "last ?b = NUL \<Longrightarrow> length (PREFIX @ cstring ?b) \<noteq> sizeof_tag_config + 100"
    using cstring_length_less [OF ne] assms(2)
    by (simp add: PREFIX_def sizeof_tag_config_def TAG_NAME_LENGTH_def)
  have m: "tagfd_masterWrite s ts count (Some econf) cdev_add_rc device_create_rc =
     (if action econf \<noteq> 0x2B then (Inl (EINVAL, Invalid_action), s)
      else if int (length (gl_tags s)) = max_tags s then (Inl (ENOMEM, At_maximum), s)
      else if cfg_dtype econf \<notin> valid_dtypes then (Inl (EINVAL, Invalid_datatype), s)
      else if last ?b \<noteq> NUL then (Inl (EINVAL, Not_null_terminated), s)
      else if cstring ?b = [] then (Inl (EINVAL, Empty_name), s)
      else if \<not> set (cstring ?b) \<subseteq> set validTagNameChars then (Inl (EINVAL, Invalid_name), s)
      else if tagfd_isNameTaken s (cstring ?b) (strlen ?b) then (Inl (EEXIST, Name_exists), s)
      else if length (PREFIX @ cstring ?b) = sizeof_tag_config + 100
        then (Inl (ENOTRECOVERABLE, Snprintf_failed), s)
      else (case tagfd_construct_tag
                   \<lparr>tvalue = replicate 16 0, timestamp = now_ms ts,
                      quality = QUALITY_UNCERTAIN, dtype = cfg_dtype econf\<rparr>
                   (PREFIX @ cstring ?b) cdev_add_rc device_create_rc of
              Inl err \<Rightarrow> (Inl (EOTHER err, Create_failed), s)
            | Inr ectx \<Rightarrow> (Inr sizeof_tag_config, s\<lparr>gl_tags := gl_tags s @ [ectx]\<rparr>)))"
    unfolding tagfd_masterWrite_def Let_def
    by (simp only: c l e name_chars_ok_iff dtype_switch_iff gl_nEntities_def if_False
        option.case tag_t.simps)
  show ?thesis
    unfolding m using sh
    by (auto simp: tagfd_construct_tag_def strlen_cstring simp del: length_append)
qed

lemma go_request_fields:
  "action (go_request nm d) = 0x2B" "cfg_dtype (go_request nm d) = d"
  by (simp_all add: go_request_def)

text \<open>The array \<open>go\<close> fills from a C string of at most 255 bytes.\<close>

lemma go_request_name:
  assumes "NUL \<notin> set nm" and "length nm \<le> 255"
  shows "length (cfg_name (go_request nm d)) = TAG_NAME_LENGTH"
    and "last (cfg_name (go_request nm d)) = NUL"
    and "cstring (cfg_name (go_request nm d)) = nm"
proof -
  have t: "take (TAG_NAME_LENGTH - 1) nm = nm"
    using assms(2) by (simp add: TAG_NAME_LENGTH_def)
  have b: "cfg_name (go_request nm d) = nm @ replicate (TAG_NAME_LENGTH - length nm) NUL"
    unfolding go_request_def by (simp only: t tag_config.simps)
  have pos: "0 < TAG_NAME_LENGTH - length nm"
    using assms(2) by (simp add: TAG_NAME_LENGTH_def)
  show "length (cfg_name (go_request nm d)) = TAG_NAME_LENGTH"
    using assms(2) by (simp add: b TAG_NAME_LENGTH_def)
  show "last (cfg_name (go_request nm d)) = NUL"
    using pos by (simp add: b)
  obtain k where k: "TAG_NAME_LENGTH - length nm = Suc k"
    using pos by (cases "TAG_NAME_LENGTH - length nm") auto
  have "\<And>x. x \<in> set nm \<Longrightarrow> x \<noteq> NUL"
    using assms(1) by auto
  then have "takeWhile (\<lambda>c. c \<noteq> NUL) (nm @ NUL # replicate k NUL)
      = nm @ takeWhile (\<lambda>c. c \<noteq> NUL) (NUL # replicate k NUL)"
    by (rule takeWhile_append2)
  then show "cstring (cfg_name (go_request nm d)) = nm"
    unfolding b cstring_def k by simp
qed

lemma uint_word_of_int_64:
  "0 \<le> x \<Longrightarrow> x < 2 ^ 64 \<Longrightarrow> uint (word_of_int x :: 64 word) = x"
  by (simp add: uint_word_of_int take_bit_eq_mod)

lemma now_ms_value:
  assumes "0 \<le> tv_sec ts" and "0 \<le> tv_nsec ts"
    and "tv_sec ts * 1000 + tv_nsec ts div 1000000 < 2 ^ 64"
  shows "uint (now_ms ts) = tv_sec ts * 1000 + tv_nsec ts div 1000000"
proof -
  have d: "c_div (tv_nsec ts) 1000000 = tv_nsec ts div 1000000"
    using assms(2) by (cases "tv_nsec ts = 0") (simp_all add: c_div_def sgn_if)
  have e: "now_ms ts = word_of_int (tv_sec ts * 1000 + tv_nsec ts div 1000000)"
    by (simp add: now_ms_def Let_def d)
  have "0 \<le> tv_sec ts * 1000 + tv_nsec ts div 1000000"
    using assms(1,2) by (simp add: pos_imp_zdiv_nonneg_iff)
  from uint_word_of_int_64 [OF this assms(3)] show ?thesis
    unfolding e .
qed

text \<open>
  Claim C9. A creation that succeeds returns the size of the creation record and appends
  one context to the registry, at index \<open>gl_nEntities\<close>, the entries before it
  unchanged. Its record has the requested data type, sixteen zero bytes as payload, the
  quality \<open>QUALITY_UNCERTAIN\<close>, and the timestamp computed from the clock; for a clock
  at or after the epoch whose milliseconds fit 64 bits, that is the time in milliseconds
  since the epoch.
\<close>

theorem masterWrite_installs_tag:
  assumes "tagfd_masterWrite s ts count (Some econf) cdev_add_rc device_create_rc = (Inr n, s')"
  shows "n = sizeof_tag_config
    \<and> length (gl_tags s') = Suc (length (gl_tags s))
    \<and> take (length (gl_tags s)) (gl_tags s') = gl_tags s
    \<and> tag (gl_tags s' ! length (gl_tags s))
        = \<lparr>tvalue = replicate 16 0, timestamp = now_ms ts, quality = QUALITY_UNCERTAIN,
           dtype = cfg_dtype econf\<rparr>
    \<and> quality (tag (gl_tags s' ! length (gl_tags s))) AND QUALITY_MASK = QUALITY_UNCERTAIN
    \<and> (0 \<le> tv_sec ts \<and> 0 \<le> tv_nsec ts
         \<and> tv_sec ts * 1000 + tv_nsec ts div 1000000 < 2 ^ 64 \<longrightarrow>
       uint (timestamp (tag (gl_tags s' ! length (gl_tags s))))
         = tv_sec ts * 1000 + tv_nsec ts div 1000000)"
proof -
  from assms have "n = sizeof_tag_config \<and> gl_tags s' = gl_tags s @
      [\<lparr>tag = \<lparr>tvalue = replicate 16 0, timestamp = now_ms ts, quality = QUALITY_UNCERTAIN,
                dtype = cfg_dtype econf\<rparr>,
        name = take (TAG_NAME_LENGTH - 1) (PREFIX @ cstring (cfg_name econf))\<rparr>]"
    by (auto simp: tagfd_masterWrite_def Let_def tagfd_construct_tag_def
        split: if_splits sum.splits)
  then show ?thesis
    using now_ms_value [of ts] by (simp add: QUALITY_UNCERTAIN_def)
qed

lemma create_abc:
  "tagfd_masterWrite state_held ts0 258 (Some (go_request ''abc'' DT_INT8)) 0 0
     = (Inr 258, state_abc)"
proof -
  have n: "NUL \<notin> set ''abc''" "length ''abc'' \<le> 255"
    by (simp_all add: NUL_def)
  note g = go_request_name [OF n, of DT_INT8]
  show ?thesis
    apply (subst masterWrite_chain [OF _ g(1)])
     apply (simp add: sizeof_tag_config_def)
    apply (simp add: g go_request_fields sizeof_tag_config_def tagfd_isNameTaken_iff
        validTagNameChars_def)
    apply (simp add: state_held_def state_abc_def ctx_abc_def valid_dtypes_def DT_defs
        now_ms_def ts0_def c_div_def PREFIX_def TAG_NAME_LENGTH_def)
    done
qed

theorem masterWrite_installs_tag_witness:
  "tagfd_masterWrite state_held ts0 258 (Some (go_request ''abc'' DT_INT8)) 0 0
     = (Inr 258, state_abc)
   \<and> tag (gl_tags state_abc ! 0)
       = \<lparr>tvalue = replicate 16 0, timestamp = 1000, quality = 0, dtype = DT_INT8\<rparr>
   \<and> uint (timestamp (tag (gl_tags state_abc ! 0))) = 1000"
  using masterWrite_installs_tag [OF create_abc] create_abc
  by (simp add: state_abc_def state_held_def ctx_abc_def QUALITY_UNCERTAIN_def ts0_def)

text \<open>
  Claim C1 fails on the code. With one tag \<open>abc\<close> in the registry, a request to create
  \<open>t\<close> (action \<open>+\<close>, a data type of the closed set, a name of one allowed byte that
  differs from the only live name, the registry below capacity) is rejected with
  \<open>EEXIST\<close>: \<open>tagfd_isNameTaken\<close> compares the first bytes of the new name with the
  stored device name, which starts with \<open>PREFIX\<close>.
\<close>

theorem masterWrite_rejects_fresh_name:
  "tagfd_masterWrite state_held ts0 258 (Some (go_request ''abc'' DT_INT8)) 0 0
     = (Inr 258, state_abc)
   \<and> tag_names state_abc = [''abc'']
   \<and> int (length (gl_tags state_abc)) < max_tags state_abc
   \<and> tagfd_masterWrite state_abc ts0 258 (Some (go_request ''t'' DT_INT8)) 0 0
     = (Inl (EEXIST, Name_exists), state_abc)"
proof -
  have n: "NUL \<notin> set ''t''" "length ''t'' \<le> 255"
    by (simp_all add: NUL_def)
  note g = go_request_name [OF n, of DT_INT8]
  have "tagfd_masterWrite state_abc ts0 258 (Some (go_request ''t'' DT_INT8)) 0 0
     = (Inl (EEXIST, Name_exists), state_abc)"
    apply (subst masterWrite_chain [OF _ g(1)])
     apply (simp add: sizeof_tag_config_def)
    apply (simp add: g go_request_fields sizeof_tag_config_def tagfd_isNameTaken_iff
        validTagNameChars_def)
    apply (simp add: state_abc_def ctx_abc_def valid_dtypes_def DT_defs)
    done
  then show ?thesis
    using create_abc by (simp add: tag_names_def state_abc_def ctx_abc_def PREFIX_def)
qed

text \<open>
  Claim C2, as stated, fails: the registry's capacity and the data type are tested before
  the name. At capacity, a request with an empty name fails with \<open>ENOMEM\<close>, the error of
  an exhausted capacity; and a request with the name \<open>a b\<close> and the data type 0 fails
  with the warning for an invalid data type.
\<close>

theorem masterWrite_order_counterexample:
  "cstring (cfg_name (go_request [] DT_INT8)) = []
   \<and> int (length (gl_tags state_full)) = max_tags state_full
   \<and> tagfd_masterWrite state_full ts0 258 (Some (go_request [] DT_INT8)) 0 0
       = (Inl (ENOMEM, At_maximum), state_full)
   \<and> \<not> set (cstring (cfg_name (go_request ''a b'' DT_INVALID))) \<subseteq> set validTagNameChars
   \<and> tagfd_masterWrite state_abc ts0 258 (Some (go_request ''a b'' DT_INVALID)) 0 0
       = (Inl (EINVAL, Invalid_datatype), state_abc)"
proof -
  have n: "NUL \<notin> set []" "length ([] :: string) \<le> 255"
    by simp_all
  note g = go_request_name [OF n, of DT_INT8]
  have n': "NUL \<notin> set ''a b''" "length ''a b'' \<le> 255"
    by (simp_all add: NUL_def)
  note g' = go_request_name [OF n', of DT_INVALID]
  have 1: "tagfd_masterWrite state_full ts0 258 (Some (go_request [] DT_INT8)) 0 0
       = (Inl (ENOMEM, At_maximum), state_full)"
    apply (subst masterWrite_chain [OF _ g(1)])
     apply (simp add: sizeof_tag_config_def)
    apply (simp add: g go_request_fields state_full_def)
    done
  have 2: "tagfd_masterWrite state_abc ts0 258 (Some (go_request ''a b'' DT_INVALID)) 0 0
       = (Inl (EINVAL, Invalid_datatype), state_abc)"
    apply (subst masterWrite_chain [OF _ g'(1)])
     apply (simp add: sizeof_tag_config_def)
    apply (simp add: g' go_request_fields)
    apply (simp add: state_abc_def valid_dtypes_def DT_defs)
    done
  show ?thesis
    using 1 2 by (simp add: g g' validTagNameChars_def state_full_def)
qed

text \<open>
  Claim C2, amended. For a request of full size that was fetched, the error is the one of
  the first test that fails, in this order: the action is \<open>+\<close>; the registry is below
  capacity; the data type is in the closed set; the name array ends with NUL (so the name
  has at most 255 bytes); the name is not empty; every byte of the name is in the allowed
  set; \<open>tagfd_isNameTaken\<close> does not report the name. After that only registering the
  device can fail. So at capacity an empty or invalid name fails with \<open>ENOMEM\<close>, and an
  invalid name with an invalid data type fails with the warning for the data type.
\<close>

theorem masterWrite_validation_order:
  assumes "sizeof_tag_config \<le> count" and "length (cfg_name econf) = TAG_NAME_LENGTH"
  shows "fst (tagfd_masterWrite s ts count (Some econf) cdev_add_rc device_create_rc) =
    (if action econf \<noteq> 0x2B then Inl (EINVAL, Invalid_action)
     else if int (length (gl_tags s)) = max_tags s then Inl (ENOMEM, At_maximum)
     else if cfg_dtype econf \<notin> valid_dtypes then Inl (EINVAL, Invalid_datatype)
     else if last (cfg_name econf) \<noteq> NUL then Inl (EINVAL, Not_null_terminated)
     else if cstring (cfg_name econf) = [] then Inl (EINVAL, Empty_name)
     else if \<not> set (cstring (cfg_name econf)) \<subseteq> set validTagNameChars
       then Inl (EINVAL, Invalid_name)
     else if tagfd_isNameTaken s (cstring (cfg_name econf)) (length (cstring (cfg_name econf)))
       then Inl (EEXIST, Name_exists)
     else if cdev_add_rc \<noteq> 0 then Inl (EOTHER cdev_add_rc, Create_failed)
     else if device_create_rc \<noteq> 0 then Inl (EOTHER device_create_rc, Create_failed)
     else Inr sizeof_tag_config)"
  unfolding masterWrite_chain [OF assms] by simp

theorem masterWrite_validation_order_witness:
  "fst (tagfd_masterWrite state_full ts0 258 (Some (go_request ''a b'' DT_INVALID)) 0 0)
     = Inl (ENOMEM, At_maximum)
   \<and> fst (tagfd_masterWrite state_abc ts0 258 (Some (go_request ''a b'' DT_INT8)) 0 0)
     = Inl (EINVAL, Invalid_name)"
proof -
  have n: "NUL \<notin> set ''a b''" "length ''a b'' \<le> 255"
    by (simp_all add: NUL_def)
  note g = go_request_name [OF n, of DT_INVALID]
  note g' = go_request_name [OF n, of DT_INT8]
  have c: "sizeof_tag_config \<le> 258"
    by (simp add: sizeof_tag_config_def)
  have 1: "fst (tagfd_masterWrite state_full ts0 258 (Some (go_request ''a b'' DT_INVALID)) 0 0)
     = Inl (ENOMEM, At_maximum)"
    unfolding masterWrite_validation_order [OF c g(1)]
    by (simp add: go_request_fields state_full_def)
  have 2: "fst (tagfd_masterWrite state_abc ts0 258 (Some (go_request ''a b'' DT_INT8)) 0 0)
     = Inl (EINVAL, Invalid_name)"
    unfolding masterWrite_validation_order [OF c g'(1)]
    apply (simp add: g' go_request_fields validTagNameChars_def)
    apply (simp add: state_abc_def valid_dtypes_def DT_defs)
    done
  show ?thesis using 1 2 by simp
qed

subsection \<open>The names the name test reports\<close>

lemma masterWrite_tags:
  assumes "tagfd_masterWrite s ts count buf cdev_add_rc device_create_rc = (r, s')"
  shows "gl_tags s' = gl_tags s
    \<or> (\<exists>x t. x \<noteq> [] \<and> gl_tags s' = gl_tags s @
          [\<lparr>tag = t, name = take (TAG_NAME_LENGTH - 1) (PREFIX @ x)\<rparr>])"
proof (cases buf)
  case None
  with assms show ?thesis
    by (auto simp: tagfd_masterWrite_def Let_def split: if_splits)
next
  case (Some econf)
  show ?thesis
  proof (cases "fst (tagfd_masterWrite s ts count buf cdev_add_rc device_create_rc)")
    case (Inl e)
    with assms Some show ?thesis
      by (auto simp: tagfd_masterWrite_def Let_def split: if_splits sum.splits)
  next
    case (Inr k)
    with assms Some have
      "strlen (cfg_name econf) \<noteq> 0"
      "gl_tags s' = gl_tags s @
           [\<lparr>tag = \<lparr>tvalue = replicate 16 0, timestamp = now_ms ts,
                     quality = QUALITY_UNCERTAIN, dtype = cfg_dtype econf\<rparr>,
             name = take (TAG_NAME_LENGTH - 1) (PREFIX @ cstring (cfg_name econf))\<rparr>]"
      by (auto simp: tagfd_masterWrite_def Let_def tagfd_construct_tag_def
          simp del: take_append split: if_splits sum.splits)
    moreover from this(1) have "cstring (cfg_name econf) \<noteq> []"
      by (simp add: strlen_cstring)
    ultimately show ?thesis by blast
  qed
qed

text \<open>Every stored name is the device name of a non-empty tag name, cut at 255 bytes.\<close>

lemma reachable_names:
  "reachable clock s n \<Longrightarrow>
     \<forall>c\<in>set (gl_tags s). \<exists>x. x \<noteq> [] \<and> name c = take (TAG_NAME_LENGTH - 1) (PREFIX @ x)"
proof (induction rule: reachable.induct)
  case (r_init m s)
  then show ?case by (auto simp: tagfd_init_def split: if_splits)
next
  case (r_open s n s')
  then show ?case by (auto simp: tagfd_masterOpen_def Let_def split: if_splits)
next
  case (r_open_failed s n e s')
  then show ?case by (auto simp: tagfd_masterOpen_def Let_def split: if_splits)
next
  case (r_release s n)
  then show ?case by (auto simp: tagfd_masterRelease_def)
next
  case (r_masterWrite s n ts count buf cdev_add_rc device_create_rc r s')
  from masterWrite_tags [OF r_masterWrite.hyps(3)]
  consider "gl_tags s' = gl_tags s"
    | x t where "x \<noteq> []" "gl_tags s' = gl_tags s @
        [\<lparr>tag = t, name = take (TAG_NAME_LENGTH - 1) (PREFIX @ x)\<rparr>]"
    by blast
  then show ?case
  proof cases
    case 1
    then show ?thesis using r_masterWrite.IH by simp
  next
    case 2
    have "\<exists>y. y \<noteq> [] \<and> name \<lparr>tag = t, name = take (TAG_NAME_LENGTH - 1) (PREFIX @ x)\<rparr>
        = take (TAG_NAME_LENGTH - 1) (PREFIX @ y)"
      using 2(1) by (intro exI [of _ x]) simp
    then show ?thesis
      using r_masterWrite.IH unfolding 2(2) by (simp del: take_append)
  qed
next
  case (r_write s n i count locked buf r ctx')
  have "name ctx' = name (gl_tags s ! i)"
    using r_write.hyps(3) by (auto simp: tagfd_write_def split: if_splits option.splits)
  moreover have "gl_tags s ! i \<in> set (gl_tags s)"
    using r_write.hyps(2) by simp
  ultimately have "\<exists>x. x \<noteq> [] \<and> name ctx' = take (TAG_NAME_LENGTH - 1) (PREFIX @ x)"
    using r_write.IH by auto
  moreover have "set ((gl_tags s)[i := ctx']) \<subseteq> insert ctx' (set (gl_tags s))"
    by (rule set_update_subset_insert)
  ultimately show ?case
    using r_write.IH by (simp del: take_append) blast
qed

lemma bang_not_valid: "CHR ''!'' \<notin> set validTagNameChars"
  by (simp add: validTagNameChars_def)

text \<open>In a reachable state the name test reports a valid name as taken exactly when some
  tag exists and the name is a start of \<open>tagfd\<close>, whatever the names of the tags are.\<close>

lemma isNameTaken_reachable:
  assumes "reachable clock s n" and "nm \<noteq> []" and "set nm \<subseteq> set validTagNameChars"
  shows "tagfd_isNameTaken s nm (length nm) \<longleftrightarrow>
     gl_tags s \<noteq> [] \<and> nm = take (length nm) ''tagfd''"
proof -
  let ?k = "min (length nm) 16"
  have bang: "CHR ''!'' \<notin> set nm" using assms(3) bang_not_valid by auto
  have one: "take ?k (take (TAG_NAME_LENGTH - 1) (PREFIX @ x)) = take ?k nm
      \<longleftrightarrow> nm = take (length nm) ''tagfd''" if "x \<noteq> []" for x
  proof (cases "length nm \<le> 5")
    case True
    then have k: "?k = length nm" by simp
    have "take (length nm) (take (TAG_NAME_LENGTH - 1) (PREFIX @ x)) = take (length nm) ''tagfd''"
      using True by (simp add: TAG_NAME_LENGTH_def PREFIX_def take_Cons' min_def)
    then show ?thesis unfolding k by auto
  next
    case False
    then have k5: "5 < ?k" by simp
    have l: "take ?k (take (TAG_NAME_LENGTH - 1) (PREFIX @ x)) ! 5 = CHR ''!''"
      using k5 by (simp add: TAG_NAME_LENGTH_def PREFIX_def)
    have "take ?k nm ! 5 = nm ! 5" using k5 by simp
    moreover have "nm ! 5 \<in> set nm" using False by simp
    ultimately have r: "take ?k nm ! 5 \<noteq> CHR ''!''" using bang by metis
    have "take ?k (take (TAG_NAME_LENGTH - 1) (PREFIX @ x)) \<noteq> take ?k nm"
      using l r by metis
    moreover have "nm \<noteq> take (length nm) ''tagfd''"
    proof
      assume "nm = take (length nm) ''tagfd''"
      then have "length nm = length (take (length nm) ''tagfd'')" by simp
      then show False using False by simp
    qed
    ultimately show ?thesis by simp
  qed
  show ?thesis
  proof
    assume "tagfd_isNameTaken s nm (length nm)"
    then obtain c where c: "c \<in> set (gl_tags s)" "take ?k (name c) = take ?k nm"
      by (auto simp: tagfd_isNameTaken_iff)
    from reachable_names [OF assms(1)] c(1) obtain x where
      x: "x \<noteq> []" "name c = take (TAG_NAME_LENGTH - 1) (PREFIX @ x)" by auto
    from one [OF x(1)] c(2) x(2) have "nm = take (length nm) ''tagfd''" by simp
    with c(1) show "gl_tags s \<noteq> [] \<and> nm = take (length nm) ''tagfd''" by auto
  next
    assume a: "gl_tags s \<noteq> [] \<and> nm = take (length nm) ''tagfd''"
    then obtain c where c: "c \<in> set (gl_tags s)" by (cases "gl_tags s") auto
    from reachable_names [OF assms(1)] c obtain x where
      x: "x \<noteq> []" "name c = take (TAG_NAME_LENGTH - 1) (PREFIX @ x)" by auto
    from one [OF x(1)] a x(2) have "take ?k (name c) = take ?k nm" by simp
    with c show "tagfd_isNameTaken s nm (length nm)"
      by (auto simp: tagfd_isNameTaken_iff)
  qed
qed

text \<open>So a request as claim C1 describes it, sent by \<open>go\<close> in a reachable state, creates
  the tag when the kernel registers the device, unless a tag exists and the name is one
  of \<open>t\<close>, \<open>ta\<close>, \<open>tag\<close>, \<open>tagf\<close>, \<open>tagfd\<close>; whether the name is that of a live tag
  plays no part.\<close>

lemma create_succeeds_unless_prefix:
  assumes "reachable clock s n"
    and "d \<in> valid_dtypes" and "nm \<noteq> []" and "length nm \<le> 255"
    and "set nm \<subseteq> set validTagNameChars"
    and "int (length (gl_tags s)) \<noteq> max_tags s"
  shows "fst (tagfd_masterWrite s ts sizeof_tag_config (Some (go_request nm d)) 0 0) =
     (if gl_tags s \<noteq> [] \<and> nm = take (length nm) ''tagfd''
      then Inl (EEXIST, Name_exists) else Inr sizeof_tag_config)"
proof -
  have "NUL \<notin> set validTagNameChars"
    by (simp add: validTagNameChars_def NUL_def)
  then have nn: "NUL \<notin> set nm" using assms(5) by auto
  note g = go_request_name [OF nn assms(4), of d]
  show ?thesis
    apply (subst masterWrite_chain [OF _ g(1)])
     apply simp
    apply (simp add: g go_request_fields assms isNameTaken_reachable [OF assms(1,3,5)])
    done
qed

section \<open>The first read of a session\<close>





section \<open>The machine-readable text form\<close>

declare printf_u.simps [simp del]

lemma of_char_digit_char: "d < 10 \<Longrightarrow> (of_char (digit_char d) :: nat) = 48 + d"
  by (simp add: digit_char_def)

lemma isdigit_digit_char: "d < 10 \<Longrightarrow> isdigit (digit_char d)"
  by (simp add: isdigit_def of_char_digit_char)

lemma isspace_less: "isspace c \<Longrightarrow> (of_char c :: nat) < 48"
  by (auto simp: isspace_def)

lemma isdigit_not_space: "isdigit c \<Longrightarrow> \<not> isspace c"
  using isspace_less [of c] by (auto simp: isdigit_def)

lemma isdigit_not_sign: "isdigit c \<Longrightarrow> c \<noteq> CHR ''-'' \<and> c \<noteq> CHR ''+''"
  by (auto simp: isdigit_def)

lemma digits_value_snoc:
  "digits_value (ds @ [c]) = 10 * digits_value ds + (of_char c - 48)"
  by (simp add: digits_value_def)

lemma printf_u_facts:
  "printf_u n \<noteq> [] \<and> (\<forall>c\<in>set (printf_u n). isdigit c) \<and> digits_value (printf_u n) = n"
proof (induction n rule: printf_u.induct)
  case (1 n)
  show ?case
  proof (cases "n < 10")
    case True
    then show ?thesis
      by (simp add: printf_u.simps [of n] isdigit_digit_char digits_value_def
          of_char_digit_char)
  next
    case False
    with 1 have ih: "printf_u (n div 10) \<noteq> []"
      "\<forall>c\<in>set (printf_u (n div 10)). isdigit c"
      "digits_value (printf_u (n div 10)) = n div 10"
      by simp_all
    have m: "n mod 10 < 10" by simp
    show ?thesis
      using False ih
      by (simp add: printf_u.simps [of n] digits_value_snoc isdigit_digit_char [OF m]
          of_char_digit_char [OF m])
  qed
qed

lemma takeWhile_digits:
  assumes "\<forall>c\<in>set ds. isdigit c" and "rest = [] \<or> \<not> isdigit (hd rest)"
  shows "takeWhile isdigit (ds @ rest) = ds" and "dropWhile isdigit (ds @ rest) = rest"
  using assms by (cases rest; simp add: takeWhile_append2 dropWhile_append2)+

text \<open>What \<open>%u\<close> printed is read back by an integer conversion, up to the first byte
  that is not a digit.\<close>

lemma scan_integer_printf_u:
  assumes "rest = [] \<or> \<not> isdigit (hd rest)"
  shows "scan_integer (printf_u n @ rest) = Some (False, n, rest)"
proof -
  obtain c cs where p: "printf_u n = c # cs"
    using printf_u_facts [of n] by (cases "printf_u n") auto
  have d: "\<forall>x\<in>set (c # cs). isdigit x" and v: "digits_value (c # cs) = n"
    using printf_u_facts [of n] unfolding p by auto
  have c: "isdigit c" using d by simp
  have s: "dropWhile isspace ((c # cs) @ rest) = (c # cs) @ rest"
    using isdigit_not_space [OF c] by simp
  show ?thesis
    unfolding scan_integer_def p s Let_def
    using isdigit_not_sign [OF c] takeWhile_digits [OF d assms] v
    by simp
qed

lemma scan_integer_printf_d:
  assumes "rest = [] \<or> \<not> isdigit (hd rest)"
  shows "scan_integer (printf_d i @ rest) = Some (i < 0, nat \<bar>i\<bar>, rest)"
proof (cases "i < 0")
  case True
  obtain c cs where p: "printf_u (nat (- i)) = c # cs"
    using printf_u_facts [of "nat (- i)"] by (cases "printf_u (nat (- i))") auto
  have d: "\<forall>x\<in>set (c # cs). isdigit x" and v: "digits_value (c # cs) = nat (- i)"
    using printf_u_facts [of "nat (- i)"] unfolding p by auto
  have m: "\<not> isspace (CHR ''-'')" by (simp add: isspace_def)
  show ?thesis
    using True m takeWhile_digits [OF d assms] v
    by (simp add: scan_integer_def printf_d_def p Let_def)
next
  case False
  then show ?thesis
    using scan_integer_printf_u [OF assms, of "nat i"] by (simp add: printf_d_def)
qed

lemma bit_le_word_iff:
  "bit (le_word bs :: 'a::len word) n \<longleftrightarrow>
     n < LENGTH('a) \<and> n div 8 < length bs \<and> bit (bs ! (n div 8)) (n mod 8)"
proof -
  have "bit (horner_sum uint (2 ^ LENGTH(8)) bs) n \<longleftrightarrow>
      n div LENGTH(8) < length bs \<and> bit (bs ! (n div LENGTH(8))) (n mod LENGTH(8))"
    by (rule bit_horner_sum_uint_exp_iff)
  then show ?thesis
    by (simp add: le_word_def bit_word_of_int_iff)
qed

lemma length_le_bytes: "length (le_bytes k y) = k"
  by (simp add: le_bytes_def)

lemma bit_le_bytes_nth:
  "i < k \<Longrightarrow> bit (le_bytes k y ! i) j \<longleftrightarrow> j < 8 \<and> bit y (8 * i + j)"
  by (simp add: le_bytes_def bit_ucast_iff bit_drop_bit_eq)

lemma le_bytes_ucast_le_word:
  fixes bs :: "8 word list"
  assumes "length bs = k" and "LENGTH('a::len) = 8 * k" and "k \<le> 8"
  shows "le_bytes k (ucast (le_word bs :: 'a word) :: 64 word) = bs"
proof (rule nth_equalityI)
  show "length (le_bytes k (ucast (le_word bs :: 'a word) :: 64 word)) = length bs"
    using assms(1) by (simp add: length_le_bytes)
next
  fix i assume "i < length (le_bytes k (ucast (le_word bs :: 'a word) :: 64 word))"
  then have i: "i < k" by (simp add: length_le_bytes)
  show "le_bytes k (ucast (le_word bs :: 'a word) :: 64 word) ! i = bs ! i"
  proof (rule bit_word_eqI)
    fix j assume "j < LENGTH(8)"
    then have j: "j < 8" by simp
    have b: "8 * i + j < 8 * k" using i j by simp
    have d: "(8 * i + j) div 8 = i" "(8 * i + j) mod 8 = j" using j by simp_all
    show "bit (le_bytes k (ucast (le_word bs :: 'a word) :: 64 word) ! i) j = bit (bs ! i) j"
      using i j b assms
      by (simp add: bit_le_bytes_nth bit_word_ucast_iff bit_le_word_iff d)
  qed
qed

lemma le_bytes_scast_le_word:
  fixes bs :: "8 word list"
  assumes "length bs = k" and "LENGTH('a::len) = 8 * k" and "k \<le> 8"
  shows "le_bytes k (scast (le_word bs :: 'a word) :: 64 word) = bs"
proof (rule nth_equalityI)
  show "length (le_bytes k (scast (le_word bs :: 'a word) :: 64 word)) = length bs"
    using assms(1) by (simp add: length_le_bytes)
next
  fix i assume "i < length (le_bytes k (scast (le_word bs :: 'a word) :: 64 word))"
  then have i: "i < k" by (simp add: length_le_bytes)
  show "le_bytes k (scast (le_word bs :: 'a word) :: 64 word) ! i = bs ! i"
  proof (rule bit_word_eqI)
    fix j assume "j < LENGTH(8)"
    then have j: "j < 8" by simp
    have b: "8 * i + j < 8 * k" using i j by simp
    have d: "(8 * i + j) div 8 = i" "(8 * i + j) mod 8 = j" using j by simp_all
    show "bit (le_bytes k (scast (le_word bs :: 'a word) :: 64 word) ! i) j = bit (bs ! i) j"
      using i j b assms
      by (simp add: bit_le_bytes_nth bit_word_scast_iff bit_le_word_iff d)
  qed
qed

lemma strtoul_value_unat:
  fixes x :: "'a::len word"
  assumes "LENGTH('a) \<le> 64"
  shows "strtoul_value False (unat x) = ucast x"
proof -
  have "unat x < 2 ^ LENGTH('a)" by (rule unsigned_less)
  also have "(2::nat) ^ LENGTH('a) \<le> 2 ^ 64"
    using assms by (intro power_increasing) simp_all
  finally have "\<not> unat x > 2 ^ 64 - 1" by simp
  then show ?thesis
    by (simp add: strtoul_value_def)
qed

lemma strtol_value_sint:
  fixes x :: "'a::len word"
  assumes "LENGTH('a) \<le> 64"
  shows "strtol_value (sint x < 0) (nat \<bar>sint x\<bar>) = scast x"
proof -
  have p: "(2::int) ^ (LENGTH('a) - 1) \<le> 2 ^ 63"
    using assms by (intro power_increasing) simp_all
  have lo: "- (2 ^ (LENGTH('a) - 1)) \<le> sint x" by (rule sint_ge)
  have hi: "sint x < 2 ^ (LENGTH('a) - 1)" by (rule sint_lt)
  have s: "(scast x :: 64 word) = word_of_int (sint x)"
    by (simp add: of_int_sint)
  show ?thesis
  proof (cases "sint x < 0")
    case True
    then have n: "int (nat \<bar>sint x\<bar>) = - sint x" by simp
    have "\<bar>sint x\<bar> \<le> 2 ^ 63" using lo p True by simp
    then have c: "(nat \<bar>sint x\<bar> > 2 ^ 63) = False"
      by (simp add: nat_le_iff not_less)
    have "word_of_int (- int (nat \<bar>sint x\<bar>)) = (word_of_int (sint x) :: 64 word)"
      unfolding n by simp
    then have "- (of_nat (nat \<bar>sint x\<bar>) :: 64 word) = word_of_int (sint x)"
      by (simp only: of_int_minus of_int_of_nat_eq)
    then show ?thesis
      unfolding strtol_value_def s by (simp only: True c if_True if_False)
  next
    case False
    then have n: "int (nat \<bar>sint x\<bar>) = sint x" by simp
    have "\<bar>sint x\<bar> \<le> 2 ^ 63 - 1" using hi p False by simp
    then have c: "(nat \<bar>sint x\<bar> > 2 ^ 63 - 1) = False"
      by (simp add: nat_le_iff not_less)
    have f: "(sint x < 0) = False" using False by simp
    have "word_of_int (int (nat \<bar>sint x\<bar>)) = (word_of_int (sint x) :: 64 word)"
      unfolding n by simp
    then have "(of_nat (nat \<bar>sint x\<bar>) :: 64 word) = word_of_int (sint x)"
      by (simp only: of_int_of_nat_eq)
    then show ?thesis
      unfolding strtol_value_def s by (simp only: f c if_True if_False)
  qed
qed

lemma scan_integer_space: "scan_integer (CHR '' '' # s) = scan_integer s"
  by (simp add: scan_integer_def isspace_def)

lemma not_isdigit_space: "\<not> isdigit (CHR '' '')"
  by (simp add: isdigit_def)

text \<open>The head of the emitted text is read back as the quality and the timestamp.\<close>

lemma sscanf_head_emit:
  "sscanf_head (tag_quality_toStr e @ '' '' @ tag_timestamp_toStr e @ '' '' @ vs)
     = Inr (quality e, timestamp e, '' '' @ vs)"
proof -
  let ?q = "printf_u (unat (quality e))" and ?t = "printf_u (unat (timestamp e))"
  obtain c cs where p: "?q = c # cs"
    using printf_u_facts [of "unat (quality e)"] by (cases ?q) auto
  have "isdigit c" using printf_u_facts [of "unat (quality e)"] unfolding p by simp
  then have ne: "dropWhile isspace (?q @ '' '' @ ?t @ '' '' @ vs) \<noteq> []"
    unfolding p using isdigit_not_space by simp
  have 1: "scan_integer (?q @ '' '' @ ?t @ '' '' @ vs)
      = Some (False, unat (quality e), '' '' @ ?t @ '' '' @ vs)"
    by (rule scan_integer_printf_u) (simp add: not_isdigit_space)
  have 2: "scan_integer ('' '' @ ?t @ '' '' @ vs) = Some (False, unat (timestamp e), '' '' @ vs)"
    using scan_integer_printf_u [of "'' '' @ vs" "unat (timestamp e)"]
    by (simp add: scan_integer_space not_isdigit_space)
  have "(ucast (ucast (quality e) :: 64 word) :: 16 word) = quality e"
    by (rule bit_word_eqI) (simp add: bit_word_ucast_iff)
  then have q: "(ucast (strtoul_value False (unat (quality e))) :: 16 word) = quality e"
    by (simp add: strtoul_value_unat)
  have t: "strtoul_value False (unat (timestamp e)) = timestamp e"
    by (simp add: strtoul_value_unat)
  show ?thesis
    unfolding sscanf_head_def tag_quality_toStr_def tag_timestamp_toStr_def
    using ne by (simp only: 1 2 q t if_False option.case prod.case)
qed

lemma sscanf_3_emit:
  assumes "conv ('' '' @ vs) = Some bs"
  shows "sscanf_3 conv (tag_quality_toStr e @ '' '' @ tag_timestamp_toStr e @ '' '' @ vs) v
     = (3, Some (quality e, timestamp e, store_member v bs))"
  unfolding sscanf_3_def sscanf_head_emit using assms by simp

lemma conv_unsigned_printf_u:
  fixes bs :: "8 word list"
  assumes "length bs = k" and "LENGTH('a::len) = 8 * k" and "k \<le> 8"
  shows "conv_unsigned k ('' '' @ printf_u (unat (le_word bs :: 'a word))) = Some bs"
proof -
  have l: "LENGTH('a) \<le> 64" using assms by simp
  have "scan_integer ('' '' @ printf_u (unat (le_word bs :: 'a word)))
      = Some (False, unat (le_word bs :: 'a word), [])"
    using scan_integer_printf_u [of "[]" "unat (le_word bs :: 'a word)"]
    by (simp add: scan_integer_space)
  then show ?thesis
    by (simp add: conv_unsigned_def strtoul_value_unat [OF l] le_bytes_ucast_le_word [OF assms])
qed

lemma conv_signed_printf_d:
  fixes bs :: "8 word list"
  assumes "length bs = k" and "LENGTH('a::len) = 8 * k" and "k \<le> 8"
  shows "conv_signed k ('' '' @ printf_d (sint (le_word bs :: 'a word))) = Some bs"
proof -
  have l: "LENGTH('a) \<le> 64" using assms by simp
  have "scan_integer ('' '' @ printf_d (sint (le_word bs :: 'a word)))
      = Some (sint (le_word bs :: 'a word) < 0, nat \<bar>sint (le_word bs :: 'a word)\<bar>, [])"
    using scan_integer_printf_d [of "[]" "sint (le_word bs :: 'a word)"]
    by (simp add: scan_integer_space)
  then show ?thesis
    by (simp add: conv_signed_def strtol_value_sint [OF l] le_bytes_scast_le_word [OF assms])
qed

text \<open>Integers and timestamps: parsing the emitted text of a record stores its quality,
  its timestamp and the bytes of the member its data type selects; the other bytes of the
  union are those the local \<open>v\<close> held, and \<open>dtype\<close> of the output is not assigned.\<close>

lemma text_round_trip_integer:
  assumes "length (tvalue e) = 16" and "member_size (dtype e) = Some k"
  shows "tag_fromStr_partial fl (tag_toStr_partial fl e) (dtype e) output v
     = Defined (Some (output\<lparr>quality := quality e, timestamp := timestamp e,
                    tvalue := store_member v (take k (tvalue e))\<rparr>))"
proof -
  note u = conv_unsigned_printf_u and s = conv_signed_printf_d
  consider "dtype e = DT_INT8" | "dtype e = DT_UINT8" | "dtype e = DT_INT16"
    | "dtype e = DT_UINT16" | "dtype e = DT_INT32" | "dtype e = DT_UINT32"
    | "dtype e = DT_INT64" | "dtype e = DT_UINT64" | "dtype e = DT_TIMESTAMP"
    using assms(2) by (auto simp: member_size_def split: if_splits)
  then show ?thesis
  proof cases
    case 1
    then have k: "k = 1" using assms(2) by (simp add: member_size_def)
    have "conv_signed 1 ('' '' @ printf_d (sint (value_u8 (tvalue e)))) = Some (take 1 (tvalue e))"
      unfolding value_u8_def by (rule s) (simp_all add: assms(1))
    from sscanf_3_emit [where conv = "conv_signed 1", OF this] show ?thesis
      by (simp add: tag_fromStr_partial_def tag_toStr_partial_def tag_value_toStr_def 1 k)
  next
    case 2
    then have k: "k = 1" using assms(2) by (simp add: member_size_def DT_defs)
    have "conv_unsigned 1 ('' '' @ printf_u (unat (value_u8 (tvalue e)))) = Some (take 1 (tvalue e))"
      unfolding value_u8_def by (rule u) (simp_all add: assms(1))
    from sscanf_3_emit [where conv = "conv_unsigned 1", OF this] show ?thesis
      by (simp add: tag_fromStr_partial_def tag_toStr_partial_def tag_value_toStr_def 2 k DT_defs)
  next
    case 3
    then have k: "k = 2" using assms(2) by (simp add: member_size_def DT_defs)
    have "conv_signed 2 ('' '' @ printf_d (sint (value_u16 (tvalue e)))) = Some (take 2 (tvalue e))"
      unfolding value_u16_def by (rule s) (simp_all add: assms(1))
    from sscanf_3_emit [where conv = "conv_signed 2", OF this] show ?thesis
      by (simp add: tag_fromStr_partial_def tag_toStr_partial_def tag_value_toStr_def 3 k DT_defs)
  next
    case 4
    then have k: "k = 2" using assms(2) by (simp add: member_size_def DT_defs)
    have "conv_unsigned 2 ('' '' @ printf_u (unat (value_u16 (tvalue e)))) = Some (take 2 (tvalue e))"
      unfolding value_u16_def by (rule u) (simp_all add: assms(1))
    from sscanf_3_emit [where conv = "conv_unsigned 2", OF this] show ?thesis
      by (simp add: tag_fromStr_partial_def tag_toStr_partial_def tag_value_toStr_def 4 k DT_defs)
  next
    case 5
    then have k: "k = 4" using assms(2) by (simp add: member_size_def DT_defs)
    have "conv_signed 4 ('' '' @ printf_d (sint (value_u32 (tvalue e)))) = Some (take 4 (tvalue e))"
      unfolding value_u32_def by (rule s) (simp_all add: assms(1))
    from sscanf_3_emit [where conv = "conv_signed 4", OF this] show ?thesis
      by (simp add: tag_fromStr_partial_def tag_toStr_partial_def tag_value_toStr_def 5 k DT_defs)
  next
    case 6
    then have k: "k = 4" using assms(2) by (simp add: member_size_def DT_defs)
    have "conv_unsigned 4 ('' '' @ printf_u (unat (value_u32 (tvalue e)))) = Some (take 4 (tvalue e))"
      unfolding value_u32_def by (rule u) (simp_all add: assms(1))
    from sscanf_3_emit [where conv = "conv_unsigned 4", OF this] show ?thesis
      by (simp add: tag_fromStr_partial_def tag_toStr_partial_def tag_value_toStr_def 6 k DT_defs)
  next
    case 7
    then have k: "k = 8" using assms(2) by (simp add: member_size_def DT_defs)
    have "conv_signed 8 ('' '' @ printf_d (sint (value_u64 (tvalue e)))) = Some (take 8 (tvalue e))"
      unfolding value_u64_def by (rule s) (simp_all add: assms(1))
    from sscanf_3_emit [where conv = "conv_signed 8", OF this] show ?thesis
      by (simp add: tag_fromStr_partial_def tag_toStr_partial_def tag_value_toStr_def 7 k DT_defs)
  next
    case 8
    then have k: "k = 8" using assms(2) by (simp add: member_size_def DT_defs)
    have "conv_unsigned 8 ('' '' @ printf_u (unat (value_u64 (tvalue e)))) = Some (take 8 (tvalue e))"
      unfolding value_u64_def by (rule u) (simp_all add: assms(1))
    from sscanf_3_emit [where conv = "conv_unsigned 8", OF this] show ?thesis
      by (simp add: tag_fromStr_partial_def tag_toStr_partial_def tag_value_toStr_def 8 k DT_defs)
  next
    case 9
    then have k: "k = 8" using assms(2) by (simp add: member_size_def DT_defs)
    have "conv_unsigned 8 ('' '' @ printf_u (unat (value_u64 (tvalue e)))) = Some (take 8 (tvalue e))"
      unfolding value_u64_def by (rule u) (simp_all add: assms(1))
    from sscanf_3_emit [where conv = "conv_unsigned 8", OF this] show ?thesis
      by (simp add: tag_fromStr_partial_def tag_toStr_partial_def tag_value_toStr_def 9 k DT_defs)
  qed
qed

lemma le_bytes_le_word:
  fixes bs :: "8 word list"
  assumes "length bs = k" and "LENGTH('a::len) = 8 * k"
  shows "le_bytes k (le_word bs :: 'a word) = bs"
proof (rule nth_equalityI)
  show "length (le_bytes k (le_word bs :: 'a word)) = length bs"
    using assms(1) by (simp add: length_le_bytes)
next
  fix i assume "i < length (le_bytes k (le_word bs :: 'a word))"
  then have i: "i < k" by (simp add: length_le_bytes)
  show "le_bytes k (le_word bs :: 'a word) ! i = bs ! i"
  proof (rule bit_word_eqI)
    fix j assume "j < LENGTH(8)"
    then have j: "j < 8" by simp
    have b: "8 * i + j < 8 * k" using i j by simp
    have d: "(8 * i + j) div 8 = i" "(8 * i + j) mod 8 = j" using j by simp_all
    show "bit (le_bytes k (le_word bs :: 'a word) ! i) j = bit (bs ! i) j"
      using i j b assms
      by (simp add: bit_le_bytes_nth bit_le_word_iff d)
  qed
qed

text \<open>Floating-point numbers, when the C library reads back what it printed: the bytes of
  the member are stored as for the integers.\<close>

lemma text_round_trip_real:
  assumes "length (tvalue e) = 16"
  shows "dtype e = DT_REAL32 \<Longrightarrow>
      scanf_e fl ('' '' @ printf_e9 fl (value_u32 (tvalue e))) = Some (value_u32 (tvalue e)) \<Longrightarrow>
      tag_fromStr_partial fl (tag_toStr_partial fl e) (dtype e) output v
        = Defined (Some (output\<lparr>quality := quality e, timestamp := timestamp e,
                       tvalue := store_member v (take 4 (tvalue e))\<rparr>))"
    and "dtype e = DT_REAL64 \<Longrightarrow>
      scanf_le fl ('' '' @ printf_e17 fl (value_u64 (tvalue e))) = Some (value_u64 (tvalue e)) \<Longrightarrow>
      tag_fromStr_partial fl (tag_toStr_partial fl e) (dtype e) output v
        = Defined (Some (output\<lparr>quality := quality e, timestamp := timestamp e,
                       tvalue := store_member v (take 8 (tvalue e))\<rparr>))"
proof -
  have 4: "le_bytes 4 (value_u32 (tvalue e)) = take 4 (tvalue e)"
    unfolding value_u32_def by (rule le_bytes_le_word) (simp_all add: assms)
  have 8: "le_bytes 8 (value_u64 (tvalue e)) = take 8 (tvalue e)"
    unfolding value_u64_def by (rule le_bytes_le_word) (simp_all add: assms)
  {
    assume d: "dtype e = DT_REAL32"
      and r: "scanf_e fl ('' '' @ printf_e9 fl (value_u32 (tvalue e))) = Some (value_u32 (tvalue e))"
    have "(\<lambda>r. map_option (le_bytes 4) (scanf_e fl r))
        ('' '' @ printf_e9 fl (value_u32 (tvalue e))) = Some (take 4 (tvalue e))"
      using r 4 by simp
    from sscanf_3_emit [where conv = "\<lambda>r. map_option (le_bytes 4) (scanf_e fl r)", OF this]
    show "tag_fromStr_partial fl (tag_toStr_partial fl e) (dtype e) output v
        = Defined (Some (output\<lparr>quality := quality e, timestamp := timestamp e,
                       tvalue := store_member v (take 4 (tvalue e))\<rparr>))"
      by (simp add: tag_fromStr_partial_def tag_toStr_partial_def tag_value_toStr_def d DT_defs)
  }
  {
    assume d: "dtype e = DT_REAL64"
      and r: "scanf_le fl ('' '' @ printf_e17 fl (value_u64 (tvalue e))) = Some (value_u64 (tvalue e))"
    have "(\<lambda>r. map_option (le_bytes 8) (scanf_le fl r))
        ('' '' @ printf_e17 fl (value_u64 (tvalue e))) = Some (take 8 (tvalue e))"
      using r 8 by simp
    from sscanf_3_emit [where conv = "\<lambda>r. map_option (le_bytes 8) (scanf_le fl r)", OF this]
    show "tag_fromStr_partial fl (tag_toStr_partial fl e) (dtype e) output v
        = Defined (Some (output\<lparr>quality := quality e, timestamp := timestamp e,
                       tvalue := store_member v (take 8 (tvalue e))\<rparr>))"
      by (simp add: tag_fromStr_partial_def tag_toStr_partial_def tag_value_toStr_def d DT_defs)
  }
qed

lemma char_of_unat_eq_NUL: "char_of (unat (b :: 8 word)) = NUL \<longleftrightarrow> b = 0"
proof -
  have "unat b < 256" using unsigned_less [of b, where 'a = nat] by simp
  then have "char_of (unat b) = char_of (0::nat) \<longleftrightarrow> unat b = 0"
    by (simp add: char_of_eq_iff take_bit_nat_eq_self)
  moreover have "char_of (0::nat) = NUL"
    by (simp add: NUL_def char_of_def)
  ultimately show ?thesis
    by (simp add: unat_eq_0)
qed

lemma of_char_char_of_unat: "(of_char (char_of (unat (b :: 8 word))) :: 8 word) = b"
proof -
  have "unat b < 256" using unsigned_less [of b, where 'a = nat] by simp
  then have "(of_char (char_of (unat b)) :: nat) = unat b"
    by simp
  then have "(of_nat (of_char (char_of (unat b)) :: nat) :: 8 word) = of_nat (unat b)"
    by simp
  then show ?thesis
    by (simp only: of_nat_of_char of_nat_unat ucast_id)
qed

text \<open>Strings: a value that is a C string of at most sixteen bytes, zero-padded, whose
  first byte is not white space, is stored back byte for byte; a string of exactly
  sixteen bytes is not truncated.\<close>

lemma text_round_trip_string:
  assumes "dtype e = DT_STRING"
    and "tvalue e = bs @ replicate (16 - length bs) 0" and "length bs \<le> 16"
    and "0 \<notin> set bs" and "bs = [] \<or> \<not> isspace (char_of (unat (hd bs)))"
  shows "tag_fromStr_partial fl (tag_toStr_partial fl e) (dtype e) output v
     = Defined (Some (output\<lparr>quality := quality e, timestamp := timestamp e, tvalue := tvalue e\<rparr>))"
proof -
  let ?c = "\<lambda>b :: 8 word. char_of (unat b)"
  have len: "length (tvalue e) = 16"
    using assms(2,3) by simp
  have z: "char_of (0::nat) = NUL"
    by (simp add: NUL_def char_of_def)
  have vs: "value_string (tvalue e) = map ?c bs @ replicate (16 - length bs) NUL"
    unfolding value_string_def TAG_STRING_VALUE_LENGTH_def
    using len by (simp add: assms(2) z)
  have nn: "\<And>x. x \<in> set (map ?c bs) \<Longrightarrow> x \<noteq> NUL"
    using assms(4) by (auto simp: char_of_unat_eq_NUL)
  have "takeWhile (\<lambda>c. c \<noteq> NUL) (map ?c bs @ replicate (16 - length bs) NUL)
      = map ?c bs @ takeWhile (\<lambda>c. c \<noteq> NUL) (replicate (16 - length bs) NUL)"
    using nn by (rule takeWhile_append2)
  also have "takeWhile (\<lambda>c. c \<noteq> NUL) (replicate (16 - length bs) NUL) = []"
    by (cases "16 - length bs") simp_all
  finally have cs: "cstring (value_string (tvalue e)) = map ?c bs"
    unfolding cstring_def vs by simp
  have dw: "dropWhile isspace ('' '' @ map ?c bs) = map ?c bs"
    using assms(5) by (cases bs) (simp_all add: isspace_def)
  have "map of_char (map ?c bs) = bs"
    by (simp add: of_char_char_of_unat comp_def)
  then have sc: "strncpy (map ?c bs) TAG_STRING_VALUE_LENGTH = tvalue e"
    unfolding strncpy_def TAG_STRING_VALUE_LENGTH_def assms(2) using assms(3) by simp
  show ?thesis
    by (simp add: tag_fromStr_partial_def tag_toStr_partial_def tag_value_toStr_def assms(1)
        DT_defs sscanf_string_def sscanf_head_emit cs dw sc del: append.simps)
qed

text \<open>A string tag parsed from an input whose head does not give the quality and the
  timestamp: the copy from \<open>encoded + pos\<close> runs with \<open>pos\<close> not initialised.\<close>

lemma fromStr_partial_string_undefined:
  "sscanf_head encoded = Inl n \<Longrightarrow>
     tag_fromStr_partial fl encoded DT_STRING output v = Undefined"
  by (simp add: tag_fromStr_partial_def sscanf_string_def DT_defs)

lemma take_store_member: "length bs = k \<Longrightarrow> take k (store_member v bs) = bs"
  by (simp add: store_member_def)

text \<open>So the member read from the parsed record is the member of the emitted one.\<close>

lemma member_round_trip:
  assumes "length (tvalue e) = 16"
  shows "value_u8 (store_member v (take 1 (tvalue e))) = value_u8 (tvalue e)"
    and "value_u16 (store_member v (take 2 (tvalue e))) = value_u16 (tvalue e)"
    and "value_u32 (store_member v (take 4 (tvalue e))) = value_u32 (tvalue e)"
    and "value_u64 (store_member v (take 8 (tvalue e))) = value_u64 (tvalue e)"
  using assms
  by (simp_all add: value_u8_def value_u16_def value_u32_def value_u64_def take_store_member)

lemma emit_spaced:
  "tag_toStr_partial no_floats tag_spaced = ''49152 5  23456789abcdefg''"
  by (simp add: tag_toStr_partial_def tag_quality_toStr_def tag_timestamp_toStr_def
      tag_value_toStr_def tag_spaced_def DT_defs QUALITY_GOOD_def value_string_def
      TAG_STRING_VALUE_LENGTH_def cstring_def NUL_def printf_u.simps digit_char_def
      char_of_def bit_Suc_0_iff)

text \<open>
  Claim C3 fails on the code. A string tag whose sixteen bytes are a space followed by
  \<open>23456789abcdefg\<close> is emitted as \<open>49152 5  23456789abcdefg\<close>. Parsing that text as a
  string succeeds with the quality and the timestamp of the record, but the value stored
  is \<open>23456789abcdefg\<close> followed by a zero byte: the white space in front of \<open>%n\<close>
  skips the separator and the first byte of the value, so \<open>encoded + pos\<close> starts one
  byte late.
\<close>

theorem fromStr_partial_drops_leading_space:
  "tag_toStr_partial no_floats tag_spaced = ''49152 5  23456789abcdefg''
   \<and> value_string (tvalue tag_spaced) = '' 23456789abcdefg''
   \<and> tag_fromStr_partial no_floats (tag_toStr_partial no_floats tag_spaced) DT_STRING
         tag_spaced (replicate 16 0)
       = Defined (Some (tag_spaced\<lparr>tvalue := map of_char ''23456789abcdefg'' @ [0]\<rparr>))
   \<and> value_string (map of_char ''23456789abcdefg'' @ [0]) = ''23456789abcdefg'' @ [NUL]"
  unfolding emit_spaced
  by (simp add: tag_fromStr_partial_def sscanf_string_def sscanf_head_def scan_integer_def
      isspace_def isdigit_def digits_value_def strtoul_value_def strncpy_def
      TAG_STRING_VALUE_LENGTH_def DT_defs tag_spaced_def QUALITY_GOOD_def value_string_def
      NUL_def char_of_def bit_Suc_0_iff)

end
